theory Spec2Isabelle
  imports Complex_Main
begin

section \<open>Data model (agent/state.py, retrieval/client.py, search/you\_client.py)\<close>

text \<open>
  Values produced by Python's \<^verbatim>\<open>json.loads\<close>: \<^verbatim>\<open>None\<close>, a bool, an int, a float, a
  str, a list or a dict. A JSON object is an association list standing for the resulting
  dict (its keys are distinct); \<^verbatim>\<open>dict.get\<close> is \<open>dict_get\<close> below. The agent's state
  is a plain dict that nothing checks against its declared types, so the values an engine
  reply puts into it stay JSON values of any shape.
\<close>

datatype json = JNull | JBool bool | JInt int | JFloat rat | JStr string | JArr "json list"
  | JObj "(string \<times> json) list"

text \<open>
  Exceptions are values. \<open>UpstreamError\<close> is any exception raised by an external
  collaborator (the chat model, the embedding call, the vector store, the web search).
  \<open>DictSliceError\<close> is what slicing a dict raises: a \<^verbatim>\<open>TypeError\<close> up to Python 3.11, a
  \<^verbatim>\<open>KeyError\<close> from Python 3.12 on.
\<close>

datatype error = IndexError | AttributeError | TypeError | DictSliceError | UpstreamError

text \<open>
  \<^verbatim>\<open>class ConsortItem(TypedDict)\<close>. The fields \<^verbatim>\<open>id\<close>, \<^verbatim>\<open>section\<close>, ... carry the
  prefix \<open>item_\<close> because the bare names are taken in Isabelle.
\<close>

record ConsortItem =
  item_id :: string
  item_section :: string
  item_topic :: string
  item_description :: string
  item_group :: string

text \<open>
  \<^verbatim>\<open>RetrievedChunk\<close> and its serialisable form \<^verbatim>\<open>RetrievedChunkDict\<close> have the same four
  fields that the agent reads; the \<^verbatim>\<open>metadata\<close> dict of the former is dropped by the
  retrieve node and is left out. Scores are Python floats, modelled as reals (no NaN).
\<close>

record RetrievedChunk =
  chunk_text :: string
  chunk_score :: real
  source_file :: string
  page_number :: int

text \<open>A hit of the vector store: an optional payload and a score.\<close>

record payload =
  p_text :: "string option"
  p_source_file :: "string option"
  p_page_number :: "int option"

record hit =
  hit_payload :: "payload option"
  hit_score :: real

text \<open>\<^verbatim>\<open>WebSearchResult\<close>; only the query is known to be a string.\<close>

record WebSearchResult =
  ws_query :: string
  snippet :: json
  url :: json
  title :: json

text \<open>
  What the web-search wrapper hands back: a list, a single string, or anything else. An
  element of the list is either a mapping with a \<^verbatim>\<open>.get\<close> method, of which the four
  keys below are read, or an object without that method.
\<close>

record you_item =
  yi_snippet :: "json option"
  yi_description :: "json option"
  yi_url :: "json option"
  yi_title :: "json option"

datatype you_elem = Gettable you_item | Ungettable

datatype you_raw = YouList "you_elem list" | YouStr string | YouOther

text \<open>
  \<^verbatim>\<open>class AgentState(TypedDict)\<close>, with dicts as maps. The queries, the unfamiliar
  terms and the verdict come from engine replies and are JSON values; the keys of
  \<^verbatim>\<open>web_search_results\<close> are the hydrated terms, as dict keys (\<open>py_key\<close> below).
\<close>

record AgentState =
  consort_items :: "ConsortItem list"
  current_item_index :: nat
  research_queries :: json
  retrieved_chunks :: "RetrievedChunk list"
  unfamiliar_terms :: json
  web_search_results :: "json \<rightharpoonup> string"
  evaluation_result :: json
  hop_count :: nat
  section_drafts :: "string \<rightharpoonup> string"
  latex_sections :: "string \<rightharpoonup> string"
  final_latex :: string

text \<open>
  The external world as one node visit sees it. Each chat oracle takes the data its
  prompt is built from and returns the stripped completion, or raises. A run is driven
  by one such record per node visit, so two visits may get different answers to the same
  question. \<open>str_of\<close> is Python's \<^verbatim>\<open>str()\<close> on a value that is not a string, as an
  f-string formats it.
\<close>

record ext =
  plan_chat :: "ConsortItem \<Rightarrow> error + string"
  embed :: "json \<Rightarrow> error + real list"
  qdrant_search :: "real list \<Rightarrow> nat \<Rightarrow> error + hit list"
  eval_chat :: "ConsortItem \<Rightarrow> (string \<times> int \<times> string) list \<Rightarrow> error + string"
  you_results :: "string \<Rightarrow> error + you_raw"
  str_of :: "json \<Rightarrow> string"
  synth_chat :: "ConsortItem \<Rightarrow> RetrievedChunk list \<Rightarrow> (json \<rightharpoonup> string) \<Rightarrow> error + string"
  latex_chat :: "string \<Rightarrow> error + string"

text \<open>
  The constants of \<^verbatim>\<open>latex/templates.py\<close>, which the assembler imports, are parameters.
  \<open>CONSORT_TABLE_ROW\<close> is the format string applied to its four named arguments
  (item id, section, topic, description).
\<close>

record templates =
  PREAMBLE :: string
  BEGIN_DOCUMENT :: string
  END_DOCUMENT :: string
  SECTION_COMMANDS :: "string \<rightharpoonup> string"
  CONSORT_TABLE_HEADER :: string
  CONSORT_TABLE_ROW :: "string \<Rightarrow> string \<Rightarrow> string \<Rightarrow> string \<Rightarrow> string"
  CONSORT_TABLE_FOOTER :: string

section \<open>Small Python helpers\<close>

definition dict_get :: "(string \<times> json) list \<Rightarrow> string \<Rightarrow> json \<Rightarrow> json" where
  "dict_get kv k d = (case map_of kv k of None \<Rightarrow> d | Some v \<Rightarrow> v)"

definition map_get :: "(string \<rightharpoonup> string) \<Rightarrow> string \<Rightarrow> string \<Rightarrow> string" where
  "map_get m k d = (case m k of None \<Rightarrow> d | Some v \<Rightarrow> v)"

text \<open>Truth value of a JSON value in an \<^verbatim>\<open>if\<close>.\<close>

fun py_truthy :: "json \<Rightarrow> bool" where
  "py_truthy JNull = False"
| "py_truthy (JBool b) = b"
| "py_truthy (JInt i) = (i \<noteq> 0)"
| "py_truthy (JFloat r) = (r \<noteq> 0)"
| "py_truthy (JStr s) = (s \<noteq> [])"
| "py_truthy (JArr xs) = (xs \<noteq> [])"
| "py_truthy (JObj kv) = (kv \<noteq> [])"

text \<open>\<^verbatim>\<open>len(v)\<close>: defined for a str, a list and a dict.\<close>

fun py_len :: "json \<Rightarrow> error + nat" where
  "py_len (JStr s) = Inr (length s)"
| "py_len (JArr xs) = Inr (length xs)"
| "py_len (JObj kv) = Inr (length kv)"
| "py_len _ = Inl TypeError"

text \<open>
  \<^verbatim>\<open>for x in v\<close>: the elements of a list, the characters of a str, the keys of a dict.
\<close>

fun py_iter :: "json \<Rightarrow> error + json list" where
  "py_iter (JArr xs) = Inr xs"
| "py_iter (JStr s) = Inr (map (\<lambda>c. JStr [c]) s)"
| "py_iter (JObj kv) = Inr (map (\<lambda>p. JStr (fst p)) kv)"
| "py_iter _ = Inl TypeError"

text \<open>\<^verbatim>\<open>v[:80]\<close>, whose value is only logged: defined for a str and a list.\<close>

fun py_slice :: "json \<Rightarrow> error + unit" where
  "py_slice (JStr s) = Inr ()"
| "py_slice (JArr xs) = Inr ()"
| "py_slice (JObj kv) = Inl DictSliceError"
| "py_slice _ = Inl TypeError"

text \<open>
  A value as a dict key: a list or a dict is unhashable; \<^verbatim>\<open>True\<close>, \<^verbatim>\<open>1\<close> and
  \<^verbatim>\<open>1.0\<close> are one key, as are \<^verbatim>\<open>False\<close>, \<^verbatim>\<open>0\<close> and \<^verbatim>\<open>0.0\<close>.
\<close>

fun py_key :: "json \<Rightarrow> json option" where
  "py_key (JArr xs) = None"
| "py_key (JObj kv) = None"
| "py_key (JBool b) = Some (JInt (if b then 1 else 0))"
| "py_key (JFloat r) = Some (if r = of_int \<lfloor>r\<rfloor> then JInt \<lfloor>r\<rfloor> else JFloat r)"
| "py_key v = Some v"

text \<open>A value inside an f-string.\<close>

definition py_str :: "ext \<Rightarrow> json \<Rightarrow> string" where
  "py_str x v = (case v of JStr s \<Rightarrow> s | _ \<Rightarrow> str_of x v)"

fun as_str :: "json \<Rightarrow> string option" where
  "as_str (JStr s) = Some s"
| "as_str _ = None"

fun as_str_list :: "json list \<Rightarrow> string list option" where
  "as_str_list [] = Some []"
| "as_str_list (j # js) =
     (case as_str j of None \<Rightarrow> None
      | Some s \<Rightarrow> (case as_str_list js of None \<Rightarrow> None | Some ss \<Rightarrow> Some (s # ss)))"

fun str_join :: "string \<Rightarrow> string list \<Rightarrow> string" where
  "str_join sep [] = []"
| "str_join sep [x] = x"
| "str_join sep (x # y # ys) = x @ sep @ str_join sep (y # ys)"

section \<open>Evidence store adapter (retrieval/client.py)\<close>

definition hit_to_chunk :: "hit \<Rightarrow> RetrievedChunk" where
  "hit_to_chunk h =
     (let p = (case hit_payload h of None \<Rightarrow> \<lparr>p_text = None, p_source_file = None, p_page_number = None\<rparr>
               | Some q \<Rightarrow> q)
      in \<lparr>chunk_text = (case p_text p of None \<Rightarrow> [] | Some t \<Rightarrow> t),
          chunk_score = hit_score h,
          source_file = (case p_source_file p of None \<Rightarrow> [] | Some f \<Rightarrow> f),
          page_number = (case p_page_number p of None \<Rightarrow> 0 | Some n \<Rightarrow> n)\<rparr>)"

text \<open>
  \<^verbatim>\<open>QdrantRetriever.search\<close>: two external calls, neither inside a \<^verbatim>\<open>try\<close>, and the
  log line that slices the query.
\<close>

definition search :: "ext \<Rightarrow> json \<Rightarrow> nat \<Rightarrow> error + RetrievedChunk list" where
  "search x query top_k =
     (case embed x query of
        Inl e \<Rightarrow> Inl e
      | Inr query_vector \<Rightarrow>
         (case qdrant_search x query_vector top_k of
            Inl e \<Rightarrow> Inl e
          | Inr results \<Rightarrow>
             (let chunks = map hit_to_chunk results in
              case py_slice query of
                Inl e \<Rightarrow> Inl e
              | Inr u \<Rightarrow> Inr chunks)))"

text \<open>The inner loop of \<^verbatim>\<open>multi_query_search\<close>: de-duplication by exact text.\<close>

fun dedup_results :: "string set \<times> RetrievedChunk list \<Rightarrow> RetrievedChunk list
    \<Rightarrow> string set \<times> RetrievedChunk list" where
  "dedup_results (seen_texts, all_chunks) [] = (seen_texts, all_chunks)"
| "dedup_results (seen_texts, all_chunks) (chunk # results) =
     (if chunk_text chunk \<notin> seen_texts
      then dedup_results (insert (chunk_text chunk) seen_texts, all_chunks @ [chunk]) results
      else dedup_results (seen_texts, all_chunks) results)"

text \<open>The outer loop: one search per query; a failing search ends the call.\<close>

fun query_loop :: "ext \<Rightarrow> nat \<Rightarrow> string set \<times> RetrievedChunk list \<Rightarrow> json list
    \<Rightarrow> error + string set \<times> RetrievedChunk list" where
  "query_loop x top_k acc [] = Inr acc"
| "query_loop x top_k acc (q # queries) =
     (case search x q top_k of
        Inl e \<Rightarrow> Inl e
      | Inr results \<Rightarrow> query_loop x top_k (dedup_results acc results) queries)"

text \<open>
  \<^verbatim>\<open>all_chunks.sort(key=lambda c: c.score, reverse=True)\<close>: Python's sort is stable also
  with \<^verbatim>\<open>reverse=True\<close>, so it is the stable sort by ascending negated score.
\<close>

definition rerank :: "RetrievedChunk list \<Rightarrow> RetrievedChunk list" where
  "rerank all_chunks = sort_key (\<lambda>c. - chunk_score c) all_chunks"

definition multi_query_search :: "ext \<Rightarrow> json \<Rightarrow> nat \<Rightarrow> error + RetrievedChunk list" where
  "multi_query_search x queries top_k_per_query =
     (case py_iter queries of
        Inl e \<Rightarrow> Inl e
      | Inr qs \<Rightarrow>
         (case query_loop x top_k_per_query ({}, []) qs of
            Inl e \<Rightarrow> Inl e
          | Inr (seen_texts, all_chunks) \<Rightarrow> Inr (rerank all_chunks)))"

section \<open>Knowledge hydrator (search/you\_client.py)\<close>

definition item_to_result :: "string \<Rightarrow> you_item \<Rightarrow> WebSearchResult" where
  "item_to_result query it =
     \<lparr>ws_query = query,
      snippet = (case yi_snippet it of Some s \<Rightarrow> s
                 | None \<Rightarrow> (case yi_description it of Some d \<Rightarrow> d | None \<Rightarrow> JStr [])),
      url = (case yi_url it of Some u \<Rightarrow> u | None \<Rightarrow> JStr []),
      title = (case yi_title it of Some t \<Rightarrow> t | None \<Rightarrow> JStr [])\<rparr>"

text \<open>
  The loop over a list reply. It is outside the \<^verbatim>\<open>try\<close>: an element without
  \<^verbatim>\<open>.get\<close> raises \<open>AttributeError\<close>.
\<close>

fun results_of_items :: "string \<Rightarrow> you_elem list \<Rightarrow> error + WebSearchResult list" where
  "results_of_items query [] = Inr []"
| "results_of_items query (Ungettable # raw_results) = Inl AttributeError"
| "results_of_items query (Gettable it # raw_results) =
     (case results_of_items query raw_results of
        Inl e \<Rightarrow> Inl e
      | Inr results \<Rightarrow> Inr (item_to_result query it # results))"

text \<open>
  \<^verbatim>\<open>search_term\<close>: only the wrapper call sits in
  \<^verbatim>\<open>try ... except Exception: return []\<close>.
\<close>

definition search_term :: "ext \<Rightarrow> json \<Rightarrow> error + WebSearchResult list" where
  "search_term x term =
     (let query = ''definition of '' @ py_str x term @ '' in clinical trials''
      in case you_results x query of
           Inl e \<Rightarrow> Inr []
         | Inr (YouList raw_results) \<Rightarrow> results_of_items query raw_results
         | Inr (YouStr raw) \<Rightarrow> Inr [\<lparr>ws_query = query, snippet = JStr raw, url = JStr [], title = JStr []\<rparr>]
         | Inr YouOther \<Rightarrow> Inr [])"

text \<open>
  \<^verbatim>\<open>" ".join(r.snippet for r in results[:2] if r.snippet)\<close>: a snippet that is
  truthy and no string makes \<^verbatim>\<open>join\<close> raise.
\<close>

definition combined :: "WebSearchResult list \<Rightarrow> error + string" where
  "combined results =
     (case as_str_list (filter py_truthy (map snippet (take 2 results))) of
        None \<Rightarrow> Inl TypeError
      | Some snippets \<Rightarrow> Inr (str_join '' '' snippets))"

text \<open>
  The loop of \<^verbatim>\<open>hydrate_terms\<close>. The definition is computed first and then stored under
  the term, which fails for a term that is unhashable.
\<close>

fun hydrate_loop :: "ext \<Rightarrow> (json \<rightharpoonup> string) \<Rightarrow> json list \<Rightarrow> error + (json \<rightharpoonup> string)" where
  "hydrate_loop x definitions [] = Inr definitions"
| "hydrate_loop x definitions (term # terms) =
     (case search_term x term of
        Inl e \<Rightarrow> Inl e
      | Inr results \<Rightarrow>
         (case (if results \<noteq> [] then combined results
                else Inr (''No definition found for '' @ [CHR 0x27] @ py_str x term @ [CHR 0x27] @ ''.'')) of
            Inl e \<Rightarrow> Inl e
          | Inr d \<Rightarrow>
             (case py_key term of
                None \<Rightarrow> Inl TypeError
              | Some k \<Rightarrow> hydrate_loop x (definitions(k \<mapsto> d)) terms)))"

definition hydrate_terms :: "ext \<Rightarrow> json \<Rightarrow> error + (json \<rightharpoonup> string)" where
  "hydrate_terms x terms =
     (case py_iter terms of
        Inl e \<Rightarrow> Inl e
      | Inr ts \<Rightarrow> hydrate_loop x Map.empty ts)"

section \<open>Node functions (agent/nodes.py)\<close>

text \<open>
  Every node maps the state to a partial update that LangGraph merges into the state
  key by key; the functions below return the merged state, or the exception raised.
\<close>

text \<open>
  The planner's reply, parsed as in \<^verbatim>\<open>plan_research\<close>: \<open>loads\<close> is \<^verbatim>\<open>json.loads\<close>, with
  \<open>None\<close> for \<^verbatim>\<open>JSONDecodeError\<close>. Any list is taken as it is.
\<close>

definition parse_queries :: "(string \<Rightarrow> json option) \<Rightarrow> string \<Rightarrow> json" where
  "parse_queries loads raw =
     (case loads raw of
        None \<Rightarrow> JArr [JStr raw]
      | Some (JArr js) \<Rightarrow> JArr js
      | Some _ \<Rightarrow> JArr [JStr raw])"

definition plan_research :: "(string \<Rightarrow> json option) \<Rightarrow> ext \<Rightarrow> AgentState \<Rightarrow> error + AgentState" where
  "plan_research loads x state =
     (let idx = current_item_index state in
      if idx \<ge> length (consort_items state) then Inl IndexError
      else
        let item = consort_items state ! idx in
        case plan_chat x item of
          Inl e \<Rightarrow> Inl e
        | Inr raw \<Rightarrow>
            (let queries = parse_queries loads raw in
             Inr (state\<lparr>research_queries := queries,
                        retrieved_chunks := [],
                        hop_count := 0,
                        evaluation_result := JStr [],
                        unfamiliar_terms := JArr [],
                        web_search_results := web_search_results state\<rparr>)))"

text \<open>The merge of \<^verbatim>\<open>retrieve\<close>: new chunks are appended unless their text was seen.\<close>

fun merge_chunks :: "string set \<Rightarrow> RetrievedChunk list \<Rightarrow> RetrievedChunk list \<Rightarrow> RetrievedChunk list" where
  "merge_chunks seen existing [] = existing"
| "merge_chunks seen existing (cd # chunk_dicts) =
     (if chunk_text cd \<notin> seen
      then merge_chunks (insert (chunk_text cd) seen) (existing @ [cd]) chunk_dicts
      else merge_chunks seen existing chunk_dicts)"

definition retrieve :: "ext \<Rightarrow> AgentState \<Rightarrow> error + AgentState" where
  "retrieve x state =
     (case multi_query_search x (research_queries state) 5 of
        Inl e \<Rightarrow> Inl e
      | Inr chunks \<Rightarrow>
          (let existing = retrieved_chunks state;
               seen = chunk_text ` set existing
           in Inr (state\<lparr>retrieved_chunks := merge_chunks seen existing chunks,
                         hop_count := hop_count state + 1\<rparr>)))"

text \<open>What the evaluator is shown: the first 15 chunks, each text cut to 500 characters.\<close>

definition evidence_summary :: "RetrievedChunk list \<Rightarrow> (string \<times> int \<times> string) list" where
  "evidence_summary chunks =
     map (\<lambda>c. (source_file c, page_number c, take 500 (chunk_text c))) (take 15 chunks)"

text \<open>The \<^verbatim>\<open>try/except\<close> of \<^verbatim>\<open>evaluate\<close>: the parsed reply, or the fallback dict.\<close>

definition parse_evaluation :: "(string \<Rightarrow> json option) \<Rightarrow> string \<Rightarrow> json" where
  "parse_evaluation loads raw =
     (case loads raw of
        Some result \<Rightarrow> result
      | None \<Rightarrow> JObj [(''verdict'', JStr ''sufficient''), (''details'', JStr raw),
                      (''unfamiliar_terms'', JArr []), (''follow_up_queries'', JArr [])])"

text \<open>
  \<^verbatim>\<open>evaluate\<close>. A reply that parses to something other than an object has no \<^verbatim>\<open>.get\<close>
  (\<open>AttributeError\<close>). The verdict, the follow-up queries and the unfamiliar terms are
  taken from the object as they are; the log line takes the \<^verbatim>\<open>len\<close> of the terms and
  of the follow-ups, which raises for a value that has none.
\<close>

definition evaluate :: "(string \<Rightarrow> json option) \<Rightarrow> ext \<Rightarrow> AgentState \<Rightarrow> error + AgentState" where
  "evaluate loads x state =
     (let idx = current_item_index state in
      if idx \<ge> length (consort_items state) then Inl IndexError
      else
        let item = consort_items state ! idx;
            chunks = retrieved_chunks state;
            hop_count = hop_count state
        in
        case eval_chat x item (evidence_summary chunks) of
          Inl e \<Rightarrow> Inl e
        | Inr raw \<Rightarrow>
           (case parse_evaluation loads raw of
              JObj result \<Rightarrow>
                (let verdict0 = dict_get result ''verdict'' (JStr ''sufficient'');
                     verdict = (if verdict0 = JStr ''need_more'' \<and> hop_count \<ge> 3
                                then JStr ''sufficient'' else verdict0);
                     follow_ups = dict_get result ''follow_up_queries'' (JArr []);
                     unfamiliar = dict_get result ''unfamiliar_terms'' (JArr [])
                 in case py_len unfamiliar of
                      Inl e \<Rightarrow> Inl e
                    | Inr n_unfamiliar \<Rightarrow>
                       (case py_len follow_ups of
                          Inl e \<Rightarrow> Inl e
                        | Inr n_follow_ups \<Rightarrow>
                            Inr (state\<lparr>evaluation_result := verdict,
                                        unfamiliar_terms := unfamiliar,
                                        research_queries :=
                                          (if py_truthy follow_ups then follow_ups
                                           else research_queries state)\<rparr>)))
            | _ \<Rightarrow> Inl AttributeError))"

text \<open>\<^verbatim>\<open>{**old, **new_defs}\<close> is \<open>old ++ new_defs\<close>: the new entries win.\<close>

definition web_search :: "ext \<Rightarrow> AgentState \<Rightarrow> error + AgentState" where
  "web_search x state =
     (let terms = unfamiliar_terms state in
      if \<not> py_truthy terms then Inr (state\<lparr>web_search_results := web_search_results state\<rparr>)
      else
        case hydrate_terms x terms of
          Inl e \<Rightarrow> Inl e
        | Inr new_defs \<Rightarrow>
            (let merged = web_search_results state ++ new_defs
             in Inr (state\<lparr>web_search_results := merged, evaluation_result := JStr ''sufficient''\<rparr>)))"

definition synthesize :: "ext \<Rightarrow> AgentState \<Rightarrow> error + AgentState" where
  "synthesize x state =
     (let idx = current_item_index state in
      if idx \<ge> length (consort_items state) then Inl IndexError
      else
        let item = consort_items state ! idx;
            chunks = retrieved_chunks state;
            web_defs = web_search_results state
        in
        case synth_chat x item (take 20 chunks) web_defs of
          Inl e \<Rightarrow> Inl e
        | Inr draft \<Rightarrow>
            Inr (state\<lparr>section_drafts := (section_drafts state)(item_id item \<mapsto> draft),
                        current_item_index := idx + 1\<rparr>))"

section \<open>Document assembler (latex/generator.py)\<close>

definition bslash :: char where
  "bslash = CHR 0x5C"

text \<open>\<^verbatim>\<open>text.replace(char, escaped)\<close> for a one-character pattern.\<close>

definition str_replace :: "char \<Rightarrow> string \<Rightarrow> string \<Rightarrow> string" where
  "str_replace c escaped t = concat (map (\<lambda>a. if a = c then escaped else [a]) t)"

definition replacements :: "(char \<times> string) list" where
  "replacements =
     [(CHR ''&'', [bslash, CHR ''&'']),
      (CHR ''%'', [bslash, CHR ''%'']),
      (CHR ''$'', [bslash, CHR ''$'']),
      (CHR ''#'', [bslash, CHR ''#'']),
      (CHR ''_'', [bslash, CHR ''_'']),
      (CHR ''{'', [bslash, CHR ''{'']),
      (CHR ''}'', [bslash, CHR ''}'']),
      (CHR ''~'', bslash # ''textasciitilde{}''),
      (CHR ''^'', bslash # ''textasciicircum{}'')]"

definition escape_latex :: "string \<Rightarrow> string" where
  "escape_latex t = foldl (\<lambda>t (c, escaped). str_replace c escaped t) t replacements"

definition section_marker :: "(string \<rightharpoonup> string) \<Rightarrow> string \<Rightarrow> string" where
  "section_marker cmds section_name =
     map_get cmds section_name (bslash # ''section{'' @ section_name @ ''}'')"

definition subsection_marker :: "string \<Rightarrow> string" where
  "subsection_marker topic = bslash # ''subsection{'' @ topic @ ''}''"

definition label_marker :: "string \<Rightarrow> string" where
  "label_marker iid = bslash # ''label{sec:'' @ iid @ ''}''"

definition item_header :: "string \<Rightarrow> string \<Rightarrow> string" where
  "item_header iid topic = ''% --- CONSORT Item '' @ iid @ '': '' @ topic @ '' ---''"

definition placeholder :: "string \<Rightarrow> string" where
  "placeholder iid =
     ''\<newline>% CONSORT Item '' @ iid @ '': No evidence available.\<newline>''"

text \<open>
  The first loop of \<^verbatim>\<open>sections_to_latex\<close>, with its three mutable variables
  \<^verbatim>\<open>current_section\<close>, \<^verbatim>\<open>current_topic\<close> and \<^verbatim>\<open>parts\<close> as arguments.
\<close>

fun body_loop :: "(string \<rightharpoonup> string) \<Rightarrow> (string \<rightharpoonup> string) \<Rightarrow> ConsortItem list
    \<Rightarrow> string \<Rightarrow> string \<Rightarrow> string list \<Rightarrow> string list" where
  "body_loop cmds latex_secs [] current_section current_topic parts = parts"
| "body_loop cmds latex_secs (item # items) current_section current_topic parts =
     (let iid = item_id item;
          section_name = item_section item;
          topic = item_topic item;
          new_section = (section_name \<noteq> current_section);
          current_section1 = (if new_section then section_name else current_section);
          current_topic1 = (if new_section then [] else current_topic);
          parts1 = (if new_section then parts @ [[], section_marker cmds section_name] else parts);
          new_topic = (topic \<noteq> current_topic1);
          current_topic2 = (if new_topic then topic else current_topic1);
          parts2 = (if new_topic then parts1 @ [subsection_marker topic, label_marker iid]
                    else parts1);
          fragment = map_get latex_secs iid [];
          parts3 = (if fragment \<noteq> [] then parts2 @ [[], item_header iid topic, fragment]
                    else parts2 @ [placeholder iid])
      in body_loop cmds latex_secs items current_section1 current_topic2 parts3)"

definition table_row :: "templates \<Rightarrow> ConsortItem \<Rightarrow> string" where
  "table_row T item =
     CONSORT_TABLE_ROW T (escape_latex (item_id item)) (escape_latex (item_section item))
       (escape_latex (item_topic item))
       (escape_latex (take 80 (item_description item) @ ''...''))"

definition sections_to_latex_parts :: "templates \<Rightarrow> ConsortItem list \<Rightarrow> (string \<rightharpoonup> string)
    \<Rightarrow> string list" where
  "sections_to_latex_parts T items latex_secs =
     body_loop (SECTION_COMMANDS T) latex_secs items [] []
       [PREAMBLE T, [], BEGIN_DOCUMENT T, []]
     @ [[], CONSORT_TABLE_HEADER T] @ map (table_row T) items @ [CONSORT_TABLE_FOOTER T]
     @ [[], END_DOCUMENT T]"

definition sections_to_latex :: "templates \<Rightarrow> ConsortItem list \<Rightarrow> (string \<rightharpoonup> string) \<Rightarrow> string" where
  "sections_to_latex T items latex_secs =
     str_join ''\<newline>'' (sections_to_latex_parts T items latex_secs)"

text \<open>The loop of \<^verbatim>\<open>generate_latex\<close>: one formatting call per item that has a draft.\<close>

fun latex_loop :: "ext \<Rightarrow> (string \<rightharpoonup> string) \<Rightarrow> (string \<rightharpoonup> string) \<Rightarrow> ConsortItem list
    \<Rightarrow> error + (string \<rightharpoonup> string)" where
  "latex_loop x drafts latex_secs [] = Inr latex_secs"
| "latex_loop x drafts latex_secs (item # items) =
     (let iid = item_id item; draft = map_get drafts iid [] in
      if draft = []
      then latex_loop x drafts
             (latex_secs(iid \<mapsto> ''% No evidence found for CONSORT item '' @ iid @ ''\<newline>'')) items
      else case latex_chat x draft of
             Inl e \<Rightarrow> Inl e
           | Inr latex_fragment \<Rightarrow> latex_loop x drafts (latex_secs(iid \<mapsto> latex_fragment)) items)"

definition generate_latex :: "templates \<Rightarrow> ext \<Rightarrow> AgentState \<Rightarrow> error + AgentState" where
  "generate_latex T x state =
     (case latex_loop x (section_drafts state) Map.empty (consort_items state) of
        Inl e \<Rightarrow> Inl e
      | Inr latex_secs \<Rightarrow>
          Inr (state\<lparr>latex_sections := latex_secs,
                      final_latex := sections_to_latex T (consort_items state) latex_secs\<rparr>))"

section \<open>The graph (agent/graph.py)\<close>

datatype node = PlanResearch | Retrieve | Evaluate | WebSearch | Synthesize | GenerateLatex | END

definition route_after_evaluate :: "AgentState \<Rightarrow> node" where
  "route_after_evaluate state =
     (let verdict = evaluation_result state in
      if verdict = JStr ''need_more'' then Retrieve
      else if verdict = JStr ''need_web'' then WebSearch
      else Synthesize)"

definition route_after_synthesize :: "AgentState \<Rightarrow> node" where
  "route_after_synthesize state =
     (let idx = current_item_index state; total = length (consort_items state) in
      if idx < total then PlanResearch else GenerateLatex)"

definition create_initial_state :: "ConsortItem list \<Rightarrow> AgentState" where
  "create_initial_state items =
     \<lparr>consort_items = items, current_item_index = 0, research_queries = JArr [],
      retrieved_chunks = [], unfamiliar_terms = JArr [], web_search_results = Map.empty,
      evaluation_result = JStr [], hop_count = 0, section_drafts = Map.empty,
      latex_sections = Map.empty, final_latex = []\<rparr>"

text \<open>
  One node visit as \<^verbatim>\<open>build_graph\<close> wires it: the node runs, its update is merged, and
  the outgoing edge (fixed or conditional) names the next node.
\<close>

fun step :: "(string \<Rightarrow> json option) \<Rightarrow> templates \<Rightarrow> ext \<Rightarrow> node \<Rightarrow> AgentState
    \<Rightarrow> error + node \<times> AgentState" where
  "step loads T x PlanResearch s =
     (case plan_research loads x s of Inl e \<Rightarrow> Inl e | Inr s' \<Rightarrow> Inr (Retrieve, s'))"
| "step loads T x Retrieve s =
     (case retrieve x s of Inl e \<Rightarrow> Inl e | Inr s' \<Rightarrow> Inr (Evaluate, s'))"
| "step loads T x Evaluate s =
     (case evaluate loads x s of Inl e \<Rightarrow> Inl e | Inr s' \<Rightarrow> Inr (route_after_evaluate s', s'))"
| "step loads T x WebSearch s =
     (case web_search x s of Inl e \<Rightarrow> Inl e | Inr s' \<Rightarrow> Inr (Evaluate, s'))"
| "step loads T x Synthesize s =
     (case synthesize x s of Inl e \<Rightarrow> Inl e | Inr s' \<Rightarrow> Inr (route_after_synthesize s', s'))"
| "step loads T x GenerateLatex s =
     (case generate_latex T x s of Inl e \<Rightarrow> Inl e | Inr s' \<Rightarrow> Inr (END, s'))"
| "step loads T x END s = Inr (END, s)"

text \<open>
  A run from a node: one world record per node visit. It stops at \<open>END\<close>, at the first
  exception, or when the worlds are used up (the run is then still under way at the
  node returned). The limit LangGraph itself puts on the number of node visits of one
  \<^verbatim>\<open>invoke\<close> is a setting of the library and is not modelled: a run may have any
  length.
\<close>

fun run :: "(string \<Rightarrow> json option) \<Rightarrow> templates \<Rightarrow> ext list \<Rightarrow> node \<Rightarrow> AgentState
    \<Rightarrow> error + node \<times> AgentState" where
  "run loads T [] n s = Inr (n, s)"
| "run loads T (x # xs) n s =
     (if n = END then Inr (n, s)
      else case step loads T x n s of
             Inl e \<Rightarrow> Inl e
           | Inr (n', s') \<Rightarrow> run loads T xs n' s')"

text \<open>The nodes a run executes, in order, each with the cursor it saw.\<close>

fun visited :: "(string \<Rightarrow> json option) \<Rightarrow> templates \<Rightarrow> ext list \<Rightarrow> node \<Rightarrow> AgentState
    \<Rightarrow> (node \<times> nat) list" where
  "visited loads T [] n s = []"
| "visited loads T (x # xs) n s =
     (if n = END then []
      else (n, current_item_index s) #
           (case step loads T x n s of
              Inl e \<Rightarrow> []
            | Inr (n', s') \<Rightarrow> visited loads T xs n' s'))"

text \<open>\<^verbatim>\<open>app.invoke(initial_state)\<close>: the entry point is \<^verbatim>\<open>plan_research\<close>.\<close>

definition invoke :: "(string \<Rightarrow> json option) \<Rightarrow> templates \<Rightarrow> ext list \<Rightarrow> ConsortItem list
    \<Rightarrow> error + node \<times> AgentState" where
  "invoke loads T xs items = run loads T xs PlanResearch (create_initial_state items)"

section \<open>Invariants and sample data\<close>

text \<open>
  The hop counter stays within the ceiling, and a retrieval is only ever entered with
  room for one more hop.
\<close>

definition hop_inv :: "node \<Rightarrow> AgentState \<Rightarrow> bool" where
  "hop_inv n s = (hop_count s \<le> 3 \<and> (n = Retrieve \<longrightarrow> hop_count s < 3))"

text \<open>
  Sample engine replies, and \<^verbatim>\<open>json.loads\<close> on them (every other string used in the
  examples below is not JSON).
\<close>

definition reply_need_more :: string where
  \<open>reply_need_more = ''{"verdict": "need_more"}''\<close>

definition reply_need_web :: string where
  \<open>reply_need_web = ''{"verdict": "need_web", "unfamiliar_terms": ["ANCOVA"]}''\<close>

definition reply_sufficient :: string where
  \<open>reply_sufficient = ''{"verdict": "sufficient"}''\<close>

definition reply_sufficient_terms :: string where
  \<open>reply_sufficient_terms = ''{"verdict": "sufficient", "unfamiliar_terms": ["ANCOVA"]}''\<close>

definition reply_queries :: string where
  \<open>reply_queries = ''["primary outcome"]''\<close>

definition reply_verdict_5 :: string where
  \<open>reply_verdict_5 = ''{"verdict": 5}''\<close>

definition reply_array :: string where
  \<open>reply_array = ''[]''\<close>

definition ex_loads :: "string \<Rightarrow> json option" where
  "ex_loads raw =
     (if raw = reply_need_more then Some (JObj [(''verdict'', JStr ''need_more'')])
      else if raw = reply_need_web
        then Some (JObj [(''verdict'', JStr ''need_web''), (''unfamiliar_terms'', JArr [JStr ''ANCOVA''])])
      else if raw = reply_sufficient then Some (JObj [(''verdict'', JStr ''sufficient'')])
      else if raw = reply_sufficient_terms
        then Some (JObj [(''verdict'', JStr ''sufficient''), (''unfamiliar_terms'', JArr [JStr ''ANCOVA''])])
      else if raw = reply_verdict_5 then Some (JObj [(''verdict'', JInt 5)])
      else if raw = reply_queries then Some (JArr [JStr ''primary outcome''])
      else if raw = reply_array then Some (JArr [])
      else None)"

definition ex_item :: ConsortItem where
  "ex_item = \<lparr>item_id = ''1a'', item_section = ''Title and abstract'', item_topic = ''Title'',
     item_description = ''Identification as a randomised trial'', item_group = []\<rparr>"

definition ex_item2 :: ConsortItem where
  "ex_item2 = \<lparr>item_id = ''1b'', item_section = ''Title and abstract'', item_topic = ''Abstract'',
     item_description = ''Structured summary of trial design'', item_group = []\<rparr>"

text \<open>
  The cursor and the draft mapping move together: the drafts written so far are those of
  the items before the cursor, and the cursor has reached the end once the graph is past
  synthesis.
\<close>

definition drafts_inv :: "ConsortItem list \<Rightarrow> node \<Rightarrow> AgentState \<Rightarrow> bool" where
  "drafts_inv items n s =
     (consort_items s = items
      \<and> current_item_index s \<le> length items
      \<and> dom (section_drafts s) = item_id ` set (take (current_item_index s) items)
      \<and> (n = GenerateLatex \<or> n = END \<longrightarrow> current_item_index s = length items))"

text \<open>The cursors at which a run executed the synthesis node.\<close>

definition synthesized :: "(node \<times> nat) list \<Rightarrow> nat list" where
  "synthesized vs = map snd (filter (\<lambda>v. fst v = Synthesize) vs)"

text \<open>A world whose evaluator answers \<open>reply\<close> and whose other collaborators succeed.\<close>

definition world :: "string \<Rightarrow> ext" where
  "world reply =
     \<lparr>plan_chat = (\<lambda>_. Inr reply_queries),
      embed = (\<lambda>_. Inr []),
      qdrant_search = (\<lambda>_ _. Inr []),
      eval_chat = (\<lambda>_ _. Inr reply),
      you_results = (\<lambda>_. Inr (YouStr ''analysis of covariance'')),
      str_of = (\<lambda>_. []),
      synth_chat = (\<lambda>_ _ _. Inr ''Draft.''),
      latex_chat = (\<lambda>_. Inr ''Body.'')\<rparr>"

definition ex_templates :: templates where
  "ex_templates =
     \<lparr>PREAMBLE = ''%preamble'', BEGIN_DOCUMENT = ''%begin'', END_DOCUMENT = ''%end'',
      SECTION_COMMANDS = Map.empty, CONSORT_TABLE_HEADER = ''%table'',
      CONSORT_TABLE_ROW = (\<lambda>a b c d. a @ '' & '' @ b @ '' & '' @ c @ '' & '' @ d),
      CONSORT_TABLE_FOOTER = ''%endtable''\<rparr>"

text \<open>The state of the sample item after planning, at a given hop count.\<close>

definition at_hop :: "nat \<Rightarrow> AgentState" where
  "at_hop h = (create_initial_state [ex_item])\<lparr>research_queries := JArr [JStr ''primary outcome''], hop_count := h\<rparr>"

text \<open>A store hit, the chunk it becomes, and a world whose store returns it.\<close>

definition ex_hit :: hit where
  "ex_hit = \<lparr>hit_payload = Some \<lparr>p_text = Some ''The primary outcome was change in HbA1c.'',
       p_source_file = Some ''protocol.pdf'', p_page_number = Some 12\<rparr>, hit_score = 0.9\<rparr>"

definition ex_chunk :: RetrievedChunk where
  "ex_chunk = \<lparr>chunk_text = ''The primary outcome was change in HbA1c.'', chunk_score = 0.9,
     source_file = ''protocol.pdf'', page_number = 12\<rparr>"

definition evidence_world :: "string \<Rightarrow> ext" where
  "evidence_world reply = (world reply)\<lparr>qdrant_search := (\<lambda>_ _. Inr [ex_hit])\<rparr>"

text \<open>
  The state of a two-item run when the first item has been drafted (one hop, one chunk,
  verdict \<open>sufficient\<close> with one unfamiliar term), and the state after planning the second.
\<close>

definition after_first_item :: AgentState where
  "after_first_item =
     (create_initial_state [ex_item, ex_item2])
       \<lparr>current_item_index := 1, research_queries := JArr [JStr ''primary outcome''],
        retrieved_chunks := [ex_chunk], unfamiliar_terms := JArr [JStr ''ANCOVA''],
        evaluation_result := JStr ''sufficient'', hop_count := 1,
        section_drafts := [''1a'' \<mapsto> ''Draft.'']\<rparr>"

definition second_item_planned :: AgentState where
  "second_item_planned =
     (create_initial_state [ex_item, ex_item2])
       \<lparr>current_item_index := 1, research_queries := JArr [JStr ''primary outcome''],
        section_drafts := [''1a'' \<mapsto> ''Draft.'']\<rparr>"

text \<open>
  The first item of a two-item run when the evaluator has asked for hydration of one
  term, and the state once \<^verbatim>\<open>web_search\<close> has merged its definition.
\<close>

definition need_web_state :: AgentState where
  "need_web_state =
     (create_initial_state [ex_item, ex_item2])
       \<lparr>research_queries := JArr [JStr ''primary outcome''], hop_count := 1,
        evaluation_result := JStr ''need_web'', unfamiliar_terms := JArr [JStr ''ANCOVA'']\<rparr>"

definition hydrated_state :: AgentState where
  "hydrated_state =
     need_web_state\<lparr>web_search_results := [JStr ''ANCOVA'' \<mapsto> ''analysis of covariance''],
                    evaluation_result := JStr ''sufficient''\<rparr>"

text \<open>A world whose drafting engine quotes the definition of ANCOVA it is given.\<close>

definition citing_world :: "string \<Rightarrow> ext" where
  "citing_world reply =
     (world reply)\<lparr>synth_chat := (\<lambda>_ _ defs.
        Inr (case defs (JStr ''ANCOVA'') of Some d \<Rightarrow> ''ANCOVA is '' @ d | None \<Rightarrow> ''Draft.''))\<rparr>"





text \<open>
  The merge-and-sort of \<^verbatim>\<open>multi_query_search\<close> on the fragments the searches returned,
  in the order they arrived; that sequence of fragments itself; and the queries a query
  value is iterated into.
\<close>

definition iterated :: "json \<Rightarrow> json list" where
  "iterated queries = (case py_iter queries of Inr qs \<Rightarrow> qs | Inl e \<Rightarrow> [])"

definition merge_and_sort :: "RetrievedChunk list \<Rightarrow> RetrievedChunk list" where
  "merge_and_sort results = rerank (snd (dedup_results ({}, []) results))"

definition all_results :: "ext \<Rightarrow> json list \<Rightarrow> nat \<Rightarrow> RetrievedChunk list" where
  "all_results x queries k =
     concat (map (\<lambda>q. case search x q k of Inr results \<Rightarrow> results | Inl e \<Rightarrow> []) queries)"

text \<open>Two fragments with the same score, and a store that answers each query with one.\<close>

definition hit_a :: hit where
  "hit_a = \<lparr>hit_payload = Some \<lparr>p_text = Some ''alpha'', p_source_file = Some ''sap.pdf'',
       p_page_number = Some 1\<rparr>, hit_score = 0.5\<rparr>"

definition hit_b :: hit where
  "hit_b = \<lparr>hit_payload = Some \<lparr>p_text = Some ''beta'', p_source_file = Some ''sap.pdf'',
       p_page_number = Some 2\<rparr>, hit_score = 0.5\<rparr>"

definition chunk_a :: RetrievedChunk where
  "chunk_a = \<lparr>chunk_text = ''alpha'', chunk_score = 0.5, source_file = ''sap.pdf'', page_number = 1\<rparr>"

definition chunk_b :: RetrievedChunk where
  "chunk_b = \<lparr>chunk_text = ''beta'', chunk_score = 0.5, source_file = ''sap.pdf'', page_number = 2\<rparr>"

definition tie_world :: ext where
  "tie_world =
     (world reply_sufficient)
       \<lparr>embed := (\<lambda>q. Inr (if q = JStr ''q1'' then [1] else [2])),
        qdrant_search := (\<lambda>v k. Inr (if v = [1] then [hit_a] else [hit_b]))\<rparr>"

text \<open>
  What the assembler writes for one item, given the section and topic labels of the item
  before it (empty labels before the first item): a section marker when the section
  label differs; a topic marker and its label when the topic label differs from the
  previous topic or, if the section has just changed, from the empty label; then the
  fragment under its header, or the placeholder when the item has no fragment or an
  empty one.
\<close>

definition item_block :: "(string \<rightharpoonup> string) \<Rightarrow> (string \<rightharpoonup> string) \<Rightarrow> string \<Rightarrow> string
    \<Rightarrow> ConsortItem \<Rightarrow> string list" where
  "item_block cmds latex_secs prev_section prev_topic item =
     (if item_section item \<noteq> prev_section
      then [[], section_marker cmds (item_section item)] else [])
     @ (if item_topic item \<noteq> (if item_section item \<noteq> prev_section then [] else prev_topic)
        then [subsection_marker (item_topic item), label_marker (item_id item)] else [])
     @ (if map_get latex_secs (item_id item) [] \<noteq> []
        then [[], item_header (item_id item) (item_topic item), map_get latex_secs (item_id item) []]
        else [placeholder (item_id item)])"

fun blocks :: "(string \<rightharpoonup> string) \<Rightarrow> (string \<rightharpoonup> string) \<Rightarrow> string \<Rightarrow> string
    \<Rightarrow> ConsortItem list \<Rightarrow> string list" where
  "blocks cmds latex_secs prev_section prev_topic [] = []"
| "blocks cmds latex_secs prev_section prev_topic (item # items) =
     item_block cmds latex_secs prev_section prev_topic item
     @ blocks cmds latex_secs (item_section item) (item_topic item) items"

text \<open>
  The same in the words of claim C8: the topic marker is written exactly when the topic
  label differs from the previous item's topic label.
\<close>

definition item_block_as_claimed :: "(string \<rightharpoonup> string) \<Rightarrow> (string \<rightharpoonup> string) \<Rightarrow> string
    \<Rightarrow> string \<Rightarrow> ConsortItem \<Rightarrow> string list" where
  "item_block_as_claimed cmds latex_secs prev_section prev_topic item =
     (if item_section item \<noteq> prev_section
      then [[], section_marker cmds (item_section item)] else [])
     @ (if item_topic item \<noteq> prev_topic
        then [subsection_marker (item_topic item), label_marker (item_id item)] else [])
     @ (if map_get latex_secs (item_id item) [] \<noteq> []
        then [[], item_header (item_id item) (item_topic item), map_get latex_secs (item_id item) []]
        else [placeholder (item_id item)])"

fun blocks_as_claimed :: "(string \<rightharpoonup> string) \<Rightarrow> (string \<rightharpoonup> string) \<Rightarrow> string \<Rightarrow> string
    \<Rightarrow> ConsortItem list \<Rightarrow> string list" where
  "blocks_as_claimed cmds latex_secs prev_section prev_topic [] = []"
| "blocks_as_claimed cmds latex_secs prev_section prev_topic (item # items) =
     item_block_as_claimed cmds latex_secs prev_section prev_topic item
     @ blocks_as_claimed cmds latex_secs (item_section item) (item_topic item) items"

text \<open>Two consecutive items with the same topic label in different sections.\<close>

definition ex_methods :: ConsortItem where
  "ex_methods = \<lparr>item_id = ''5'', item_section = ''Methods'', item_topic = ''Participants'',
     item_description = ''Eligibility criteria for participants'', item_group = []\<rparr>"

definition ex_results :: ConsortItem where
  "ex_results = \<lparr>item_id = ''13'', item_section = ''Results'', item_topic = ''Participants'',
     item_description = ''Numbers of participants randomly assigned'', item_group = []\<rparr>"

text \<open>A world whose planner answers with the empty JSON array.\<close>

definition empty_plan_world :: ext where
  "empty_plan_world = (world reply_sufficient)\<lparr>plan_chat := (\<lambda>_. Inr reply_array)\<rparr>"

text \<open>
  A world whose web search gives another definition of the same term, and the second
  item of the two-item run once that world has hydrated the term again and the
  evaluator has answered \<open>sufficient\<close>.
\<close>

definition redefining_world :: "string \<Rightarrow> ext" where
  "redefining_world reply =
     (world reply)\<lparr>you_results := (\<lambda>_. Inr (YouStr ''a general linear model''))\<rparr>"

definition rehydrated_state :: AgentState where
  "rehydrated_state =
     (create_initial_state [ex_item, ex_item2])
       \<lparr>current_item_index := 1, research_queries := JArr [JStr ''primary outcome''],
        hop_count := 1, evaluation_result := JStr ''sufficient'',
        web_search_results := [JStr ''ANCOVA'' \<mapsto> ''a general linear model''],
        section_drafts := [''1a'' \<mapsto> ''Draft.'']\<rparr>"

text \<open>The keys under which the terms \<open>ts\<close> are stored.\<close>

definition keys_of :: "json list \<Rightarrow> json set" where
  "keys_of ts = {k. \<exists>t \<in> set ts. py_key t = Some k}"

section \<open>The hop ceiling\<close>


lemma plan_research_hop: "plan_research loads x s = Inr s' \<Longrightarrow> hop_count s' = 0"
  by (auto simp: plan_research_def Let_def split: if_splits sum.splits)

lemma retrieve_hop: "retrieve x s = Inr s' \<Longrightarrow> hop_count s' = hop_count s + 1"
  by (auto simp: retrieve_def Let_def split: sum.splits)

lemma evaluate_hop: "evaluate loads x s = Inr s' \<Longrightarrow> hop_count s' = hop_count s"
  by (auto simp: evaluate_def Let_def split: if_splits sum.splits json.splits option.splits)

lemma evaluate_need_more:
  "evaluate loads x s = Inr s' \<Longrightarrow> evaluation_result s' = JStr ''need_more'' \<Longrightarrow> hop_count s < 3"
  by (auto simp: evaluate_def Let_def split: if_splits sum.splits json.splits option.splits)

lemma web_search_hop: "web_search x s = Inr s' \<Longrightarrow> hop_count s' = hop_count s"
  by (auto simp: web_search_def Let_def split: if_splits sum.splits)

lemma synthesize_hop: "synthesize x s = Inr s' \<Longrightarrow> hop_count s' = hop_count s"
  by (auto simp: synthesize_def Let_def split: if_splits sum.splits)

lemma generate_latex_hop: "generate_latex T x s = Inr s' \<Longrightarrow> hop_count s' = hop_count s"
  by (auto simp: generate_latex_def split: sum.splits)

lemma step_hop_inv:
  assumes "step loads T x n s = Inr (n', s')" and "hop_inv n s"
  shows "hop_inv n' s'"
proof (cases n)
  case PlanResearch
  with assms show ?thesis
    by (auto simp: hop_inv_def split: sum.splits dest: plan_research_hop)
next
  case Retrieve
  with assms show ?thesis
    by (auto simp: hop_inv_def split: sum.splits dest: retrieve_hop)
next
  case Evaluate
  with assms obtain e: "evaluate loads x s = Inr s'" and n': "n' = route_after_evaluate s'"
    by (auto split: sum.splits)
  from evaluate_hop[OF e] assms(2) have h: "hop_count s' \<le> 3"
    by (simp add: hop_inv_def)
  have "n' = Retrieve \<Longrightarrow> hop_count s' < 3"
    using evaluate_need_more[OF e] evaluate_hop[OF e] n'
    by (auto simp: route_after_evaluate_def Let_def split: if_splits)
  with h show ?thesis by (auto simp: hop_inv_def)
next
  case WebSearch
  with assms show ?thesis
    by (auto simp: hop_inv_def split: sum.splits dest: web_search_hop)
next
  case Synthesize
  with assms show ?thesis
    by (auto simp: hop_inv_def route_after_synthesize_def Let_def split: sum.splits if_splits
        dest: synthesize_hop)
next
  case GenerateLatex
  with assms show ?thesis
    by (auto simp: hop_inv_def split: sum.splits dest: generate_latex_hop)
next
  case END
  with assms show ?thesis by (auto simp: hop_inv_def)
qed

lemma run_hop_inv:
  "run loads T xs n s = Inr (n', s') \<Longrightarrow> hop_inv n s \<Longrightarrow> hop_inv n' s'"
proof (induction xs arbitrary: n s)
  case Nil
  then show ?case by simp
next
  case (Cons x xs)
  show ?case
  proof (cases "n = END")
    case True
    with Cons.prems show ?thesis by simp
  next
    case False
    with Cons.prems obtain n1 s1 where st: "step loads T x n s = Inr (n1, s1)"
      and r: "run loads T xs n1 s1 = Inr (n', s')"
      by (auto split: sum.splits)
    from step_hop_inv[OF st Cons.prems(2)] have "hop_inv n1 s1" .
    from Cons.IH[OF r this] show ?thesis .
  qed
qed


lemma evaluate_forced:
  assumes e: "evaluate loads x st = Inr st'"
    and c: "eval_chat x (consort_items st ! current_item_index st)
              (evidence_summary (retrieved_chunks st)) = Inr raw"
    and p: "parse_evaluation loads raw = JObj result"
    and v: "dict_get result ''verdict'' (JStr ''sufficient'') = JStr ''need_more''"
  shows "evaluation_result st' = (if 3 \<le> hop_count st then JStr ''sufficient'' else JStr ''need_more'')"
  using e c p v
  by (auto simp: evaluate_def Let_def split: if_splits sum.splits)

lemma ex_loads_simps:
  "ex_loads reply_need_more = Some (JObj [(''verdict'', JStr ''need_more'')])"
  "ex_loads reply_need_web
     = Some (JObj [(''verdict'', JStr ''need_web''), (''unfamiliar_terms'', JArr [JStr ''ANCOVA''])])"
  "ex_loads reply_sufficient = Some (JObj [(''verdict'', JStr ''sufficient'')])"
  "ex_loads reply_sufficient_terms
     = Some (JObj [(''verdict'', JStr ''sufficient''), (''unfamiliar_terms'', JArr [JStr ''ANCOVA''])])"
  "ex_loads reply_verdict_5 = Some (JObj [(''verdict'', JInt 5)])"
  "ex_loads reply_queries = Some (JArr [JStr ''primary outcome''])"
  "ex_loads reply_array = Some (JArr [])"
  by (simp_all add: ex_loads_def reply_need_more_def reply_need_web_def reply_sufficient_def
      reply_sufficient_terms_def reply_verdict_5_def
      reply_queries_def reply_array_def)

lemmas ex_simps = invoke_def numeral_eq_Suc create_initial_state_def plan_research_def world_def
    ex_loads_simps parse_queries_def retrieve_def multi_query_search_def
    search_def rerank_def evaluate_def parse_evaluation_def dict_get_def evidence_summary_def
    route_after_evaluate_def at_hop_def ex_item_def

text \<open>
  Claim C1. The hop count of an item never exceeds 3: in every state a run from the
  initial state reaches, \<open>hop_count \<le> 3\<close>. When the evaluator answers \<open>need_more\<close>,
  the verdict is forced to \<open>sufficient\<close> and the graph goes on to synthesis if the hop
  count is already 3 or more, and otherwise the verdict stays \<open>need_more\<close> and the graph
  goes back to retrieval. Every retrieval raises the hop count by exactly 1.
\<close>

theorem hop_count_never_exceeds_3:
  "(invoke loads T xs items = Inr (n, s) \<longrightarrow> hop_count s \<le> 3)
   \<and> (evaluate loads x st = Inr st'
        \<and> eval_chat x (consort_items st ! current_item_index st)
              (evidence_summary (retrieved_chunks st)) = Inr raw
        \<and> parse_evaluation loads raw = JObj result
        \<and> dict_get result ''verdict'' (JStr ''sufficient'') = JStr ''need_more''
      \<longrightarrow> evaluation_result st'
            = (if 3 \<le> hop_count st then JStr ''sufficient'' else JStr ''need_more'')
          \<and> step loads T x Evaluate st
              = Inr (if 3 \<le> hop_count st then Synthesize else Retrieve, st'))
   \<and> (retrieve y rt = Inr rt' \<longrightarrow> hop_count rt' = hop_count rt + 1)"
proof (intro conjI impI)
  assume r: "invoke loads T xs items = Inr (n, s)"
  have "hop_inv PlanResearch (create_initial_state items)"
    by (simp add: hop_inv_def create_initial_state_def)
  with r have "hop_inv n s"
    unfolding invoke_def by (rule run_hop_inv)
  then show "hop_count s \<le> 3" by (simp add: hop_inv_def)
next
  assume a: "evaluate loads x st = Inr st'
        \<and> eval_chat x (consort_items st ! current_item_index st)
              (evidence_summary (retrieved_chunks st)) = Inr raw
        \<and> parse_evaluation loads raw = JObj result
        \<and> dict_get result ''verdict'' (JStr ''sufficient'') = JStr ''need_more''"
  then show v: "evaluation_result st'
      = (if 3 \<le> hop_count st then JStr ''sufficient'' else JStr ''need_more'')"
    using evaluate_forced by blast
  from a v show "step loads T x Evaluate st
              = Inr (if 3 \<le> hop_count st then Synthesize else Retrieve, st')"
    by (simp add: route_after_evaluate_def)
next
  assume "retrieve y rt = Inr rt'"
  then show "hop_count rt' = hop_count rt + 1" by (rule retrieve_hop)
qed

theorem hop_count_never_exceeds_3_witness:
  "invoke ex_loads ex_templates (replicate 7 (world reply_need_more)) [ex_item]
       = Inr (Synthesize, at_hop 3\<lparr>evaluation_result := JStr ''sufficient''\<rparr>)
   \<and> hop_count (at_hop 3\<lparr>evaluation_result := JStr ''sufficient''\<rparr>) \<le> 3
   \<and> evaluate ex_loads (world reply_need_more) (at_hop 3)
       = Inr (at_hop 3\<lparr>evaluation_result := JStr ''sufficient''\<rparr>)
   \<and> step ex_loads ex_templates (world reply_need_more) Evaluate (at_hop 3)
       = Inr (Synthesize, at_hop 3\<lparr>evaluation_result := JStr ''sufficient''\<rparr>)
   \<and> evaluate ex_loads (world reply_need_more) (at_hop 2)
       = Inr (at_hop 2\<lparr>evaluation_result := JStr ''need_more''\<rparr>)
   \<and> step ex_loads ex_templates (world reply_need_more) Evaluate (at_hop 2)
       = Inr (Retrieve, at_hop 2\<lparr>evaluation_result := JStr ''need_more''\<rparr>)
   \<and> retrieve (world reply_need_more) (at_hop 2) = Inr (at_hop 3)
   \<and> hop_count (at_hop 3) = hop_count (at_hop 2) + 1"
proof -
  let ?w = "world reply_need_more"
  have run7: "invoke ex_loads ex_templates (replicate 7 ?w) [ex_item]
      = Inr (Synthesize, at_hop 3\<lparr>evaluation_result := JStr ''sufficient''\<rparr>)"
    by (simp add: ex_simps)
  have ev3: "evaluate ex_loads ?w (at_hop 3)
      = Inr (at_hop 3\<lparr>evaluation_result := JStr ''sufficient''\<rparr>)"
    by (simp add: ex_simps)
  have ev2: "evaluate ex_loads ?w (at_hop 2)
      = Inr (at_hop 2\<lparr>evaluation_result := JStr ''need_more''\<rparr>)"
    by (simp add: ex_simps)
  have ch: "\<And>h. eval_chat ?w (consort_items (at_hop h) ! current_item_index (at_hop h))
              (evidence_summary (retrieved_chunks (at_hop h))) = Inr reply_need_more"
    by (simp add: world_def)
  have pe: "parse_evaluation ex_loads reply_need_more = JObj [(''verdict'', JStr ''need_more'')]"
    by (simp add: parse_evaluation_def ex_loads_simps)
  have dg: "dict_get [(''verdict'', JStr ''need_more'')] ''verdict'' (JStr ''sufficient'') = JStr ''need_more''"
    by (simp add: dict_get_def)
  have re: "retrieve ?w (at_hop 2) = Inr (at_hop 3)"
    by (simp add: ex_simps)
  have h3: "hop_count (at_hop 3) = 3" and h2: "hop_count (at_hop 2) = 2"
    by (simp_all add: at_hop_def)
  note A = hop_count_never_exceeds_3[of ex_loads ex_templates "replicate 7 ?w" "[ex_item]" Synthesize
      "at_hop 3\<lparr>evaluation_result := JStr ''sufficient''\<rparr>" ?w "at_hop 3"
      "at_hop 3\<lparr>evaluation_result := JStr ''sufficient''\<rparr>" reply_need_more
      "[(''verdict'', JStr ''need_more'')]" ?w "at_hop 2" "at_hop 3"]
  note B = hop_count_never_exceeds_3[of ex_loads ex_templates "replicate 7 ?w" "[ex_item]" Synthesize
      "at_hop 3\<lparr>evaluation_result := JStr ''sufficient''\<rparr>" ?w "at_hop 2"
      "at_hop 2\<lparr>evaluation_result := JStr ''need_more''\<rparr>" reply_need_more
      "[(''verdict'', JStr ''need_more'')]" ?w "at_hop 2" "at_hop 3"]
  from A run7 ev3 ch pe dg re h3
  have 1: "hop_count (at_hop 3\<lparr>evaluation_result := JStr ''sufficient''\<rparr>) \<le> 3"
    and 2: "step ex_loads ex_templates ?w Evaluate (at_hop 3)
       = Inr (Synthesize, at_hop 3\<lparr>evaluation_result := JStr ''sufficient''\<rparr>)"
    and 3: "hop_count (at_hop 3) = hop_count (at_hop 2) + 1"
    by simp_all
  from B run7 ev2 ch pe dg re h2
  have 4: "step ex_loads ex_templates ?w Evaluate (at_hop 2)
       = Inr (Retrieve, at_hop 2\<lparr>evaluation_result := JStr ''need_more''\<rparr>)"
    by simp
  from run7 ev3 ev2 re 1 2 3 4 show ?thesis by blast
qed

section \<open>Coverage of the checklist\<close>


lemma plan_research_frame:
  "plan_research loads x s = Inr s' \<Longrightarrow>
     consort_items s' = consort_items s \<and> current_item_index s' = current_item_index s
     \<and> section_drafts s' = section_drafts s \<and> current_item_index s < length (consort_items s)"
  by (auto simp: plan_research_def Let_def split: if_splits sum.splits)

lemma retrieve_frame:
  "retrieve x s = Inr s' \<Longrightarrow>
     consort_items s' = consort_items s \<and> current_item_index s' = current_item_index s
     \<and> section_drafts s' = section_drafts s"
  by (auto simp: retrieve_def Let_def split: sum.splits)

lemma evaluate_frame:
  "evaluate loads x s = Inr s' \<Longrightarrow>
     consort_items s' = consort_items s \<and> current_item_index s' = current_item_index s
     \<and> section_drafts s' = section_drafts s"
  by (auto simp: evaluate_def Let_def split: if_splits sum.splits json.splits option.splits)

lemma web_search_frame:
  "web_search x s = Inr s' \<Longrightarrow>
     consort_items s' = consort_items s \<and> current_item_index s' = current_item_index s
     \<and> section_drafts s' = section_drafts s"
  by (auto simp: web_search_def Let_def split: if_splits sum.splits)

lemma generate_latex_frame:
  "generate_latex T x s = Inr s' \<Longrightarrow>
     consort_items s' = consort_items s \<and> current_item_index s' = current_item_index s
     \<and> section_drafts s' = section_drafts s"
  by (auto simp: generate_latex_def split: sum.splits)

lemma synthesize_effect:
  "synthesize x s = Inr s' \<Longrightarrow>
     consort_items s' = consort_items s
     \<and> current_item_index s < length (consort_items s)
     \<and> current_item_index s' = Suc (current_item_index s)
     \<and> dom (section_drafts s')
         = insert (item_id (consort_items s ! current_item_index s)) (dom (section_drafts s))"
  by (auto simp: synthesize_def Let_def split: if_splits sum.splits)

lemma step_drafts_inv:
  assumes st: "step loads T x n s = Inr (n', s')" and inv: "drafts_inv items n s"
  shows "drafts_inv items n' s'"
proof (cases n)
  case PlanResearch
  with st obtain p: "plan_research loads x s = Inr s'" and "n' = Retrieve"
    by (auto split: sum.splits)
  with plan_research_frame[OF p] inv show ?thesis by (simp add: drafts_inv_def)
next
  case Retrieve
  with st obtain p: "retrieve x s = Inr s'" and "n' = Evaluate"
    by (auto split: sum.splits)
  with retrieve_frame[OF p] inv show ?thesis by (simp add: drafts_inv_def)
next
  case Evaluate
  with st obtain p: "evaluate loads x s = Inr s'" and n': "n' = route_after_evaluate s'"
    by (auto split: sum.splits)
  have "n' \<noteq> GenerateLatex" "n' \<noteq> END"
    using n' by (auto simp: route_after_evaluate_def Let_def)
  with evaluate_frame[OF p] inv show ?thesis by (simp add: drafts_inv_def)
next
  case WebSearch
  with st obtain p: "web_search x s = Inr s'" and "n' = Evaluate"
    by (auto split: sum.splits)
  with web_search_frame[OF p] inv show ?thesis by (simp add: drafts_inv_def)
next
  case Synthesize
  with st obtain p: "synthesize x s = Inr s'" and n': "n' = route_after_synthesize s'"
    by (auto split: sum.splits)
  note e = synthesize_effect[OF p]
  from inv have ci: "consort_items s = items" by (simp add: drafts_inv_def)
  let ?i = "current_item_index s"
  from e ci have lt: "?i < length items" by simp
  have tk: "take (Suc ?i) items = take ?i items @ [items ! ?i]"
    using lt by (simp add: take_Suc_conv_app_nth)
  have d: "dom (section_drafts s') = item_id ` set (take (current_item_index s') items)"
    using e ci inv tk by (simp add: drafts_inv_def)
  have g: "n' = GenerateLatex \<or> n' = END \<longrightarrow> current_item_index s' = length items"
    using n' e ci lt by (auto simp: route_after_synthesize_def Let_def split: if_splits)
  from e ci lt d g show ?thesis by (simp add: drafts_inv_def)
next
  case GenerateLatex
  with st obtain p: "generate_latex T x s = Inr s'" and "n' = END"
    by (auto split: sum.splits)
  with generate_latex_frame[OF p] inv GenerateLatex show ?thesis by (simp add: drafts_inv_def)
next
  case END
  with st inv show ?thesis by simp
qed

lemma step_cursor:
  assumes st: "step loads T x n s = Inr (n', s')"
  shows "current_item_index s' = (if n = Synthesize then Suc (current_item_index s) else current_item_index s)"
proof (cases n)
  case PlanResearch
  with st show ?thesis by (auto split: sum.splits dest: plan_research_frame)
next
  case Retrieve
  with st show ?thesis by (auto split: sum.splits dest: retrieve_frame)
next
  case Evaluate
  with st show ?thesis by (auto split: sum.splits dest: evaluate_frame)
next
  case WebSearch
  with st show ?thesis by (auto split: sum.splits dest: web_search_frame)
next
  case Synthesize
  with st show ?thesis by (auto split: sum.splits dest: synthesize_effect)
next
  case GenerateLatex
  with st show ?thesis by (auto split: sum.splits dest: generate_latex_frame)
next
  case END
  with st show ?thesis by simp
qed

lemma run_drafts_inv:
  "run loads T xs n s = Inr (n', s') \<Longrightarrow> drafts_inv items n s \<Longrightarrow> drafts_inv items n' s'"
proof (induction xs arbitrary: n s)
  case Nil
  then show ?case by simp
next
  case (Cons x xs)
  show ?case
  proof (cases "n = END")
    case True
    with Cons.prems show ?thesis by simp
  next
    case False
    with Cons.prems obtain n1 s1 where st: "step loads T x n s = Inr (n1, s1)"
      and r: "run loads T xs n1 s1 = Inr (n', s')"
      by (auto split: sum.splits)
    from Cons.IH[OF r step_drafts_inv[OF st Cons.prems(2)]] show ?thesis .
  qed
qed

lemma run_synthesized:
  "run loads T xs n s = Inr (END, s') \<Longrightarrow> drafts_inv items n s \<Longrightarrow>
     synthesized (visited loads T xs n s) = [current_item_index s ..< length items]"
proof (induction xs arbitrary: n s)
  case Nil
  then show ?case by (simp add: synthesized_def drafts_inv_def)
next
  case (Cons x xs)
  show ?case
  proof (cases "n = END")
    case True
    with Cons.prems show ?thesis by (simp add: synthesized_def drafts_inv_def)
  next
    case False
    with Cons.prems obtain n1 s1 where st: "step loads T x n s = Inr (n1, s1)"
      and r: "run loads T xs n1 s1 = Inr (END, s')"
      by (auto split: sum.splits)
    note inv1 = step_drafts_inv[OF st Cons.prems(2)]
    have ih: "synthesized (visited loads T xs n1 s1) = [current_item_index s1 ..< length items]"
      by (rule Cons.IH[OF r inv1])
    have v: "visited loads T (x # xs) n s = (n, current_item_index s) # visited loads T xs n1 s1"
      using False st by simp
    show ?thesis
    proof (cases "n = Synthesize")
      case True
      from step_cursor[OF st] True have c: "current_item_index s1 = Suc (current_item_index s)"
        by simp
      from inv1 c have "current_item_index s < length items" by (simp add: drafts_inv_def)
      then have "[current_item_index s ..< length items]
          = current_item_index s # [Suc (current_item_index s) ..< length items]"
        by (simp add: upt_conv_Cons)
      with v ih c True show ?thesis by (simp add: synthesized_def)
    next
      case False
      from step_cursor[OF st] False have "current_item_index s1 = current_item_index s" by simp
      with v ih False show ?thesis by (simp add: synthesized_def)
    qed
  qed
qed

lemma initial_drafts_inv: "drafts_inv items PlanResearch (create_initial_state items)"
  by (simp add: drafts_inv_def create_initial_state_def)

lemmas run_simps = ex_simps synthesize_def generate_latex_def route_after_synthesize_def
  map_get_def ex_item2_def

text \<open>
  Claim C3. When a run has completed (it has reached \<open>END\<close>), the keys of
  \<open>section_drafts\<close> are exactly the ids of the input items. The synthesis node was
  executed once at each cursor position \<open>0, 1, ..., length items - 1\<close>, in this order,
  and each synthesis writes the draft of the current item and advances the cursor by one
  in the same update. This holds whether or not the ids are unique.
\<close>

theorem draft_keys_cover_all_items:
  "(invoke loads T xs items = Inr (END, s) \<longrightarrow>
      dom (section_drafts s) = item_id ` set items
      \<and> synthesized (visited loads T xs PlanResearch (create_initial_state items))
          = [0 ..< length items])
   \<and> (synthesize x st = Inr st' \<longrightarrow>
        current_item_index st' = current_item_index st + 1
        \<and> dom (section_drafts st')
            = insert (item_id (consort_items st ! current_item_index st)) (dom (section_drafts st)))"
proof (intro conjI impI)
  assume r: "invoke loads T xs items = Inr (END, s)"
  then have r': "run loads T xs PlanResearch (create_initial_state items) = Inr (END, s)"
    by (simp add: invoke_def)
  from run_drafts_inv[OF r' initial_drafts_inv]
  show "dom (section_drafts s) = item_id ` set items"
    by (simp add: drafts_inv_def)
  from run_synthesized[OF r' initial_drafts_inv]
  show "synthesized (visited loads T xs PlanResearch (create_initial_state items)) = [0 ..< length items]"
    by (simp add: create_initial_state_def)
next
  assume "synthesize x st = Inr st'"
  from synthesize_effect[OF this]
  show "current_item_index st' = current_item_index st + 1" by simp
next
  assume "synthesize x st = Inr st'"
  from synthesize_effect[OF this]
  show "dom (section_drafts st')
            = insert (item_id (consort_items st ! current_item_index st)) (dom (section_drafts st))"
    by simp
qed

theorem draft_keys_cover_all_items_witness:
  "(case invoke ex_loads ex_templates (replicate 9 (world reply_sufficient)) [ex_item, ex_item2] of
      Inl e \<Rightarrow> False
    | Inr (n, s) \<Rightarrow> n = END \<and> dom (section_drafts s) = {''1a'', ''1b''})
   \<and> synthesized (visited ex_loads ex_templates (replicate 9 (world reply_sufficient)) PlanResearch
        (create_initial_state [ex_item, ex_item2])) = [0, 1]
   \<and> (case invoke ex_loads ex_templates (replicate 5 (world reply_verdict_5)) [ex_item] of
        Inl e \<Rightarrow> False
      | Inr (n, s) \<Rightarrow> n = END \<and> dom (section_drafts s) = {''1a''})
   \<and> synthesize (world reply_sufficient) (at_hop 1)
       = Inr (at_hop 1\<lparr>section_drafts := [''1a'' \<mapsto> ''Draft.''], current_item_index := 1\<rparr>)
   \<and> dom (section_drafts (at_hop 1\<lparr>section_drafts := [''1a'' \<mapsto> ''Draft.''], current_item_index := 1\<rparr>))
       = {''1a''}"
proof -
  let ?xs = "replicate 9 (world reply_sufficient)"
  let ?ys = "replicate 5 (world reply_verdict_5)"
  have "\<exists>s. invoke ex_loads ex_templates ?xs [ex_item, ex_item2] = Inr (END, s)"
    by (simp add: run_simps)
  then obtain s where r: "invoke ex_loads ex_templates ?xs [ex_item, ex_item2] = Inr (END, s)" ..
  have "\<exists>s. invoke ex_loads ex_templates ?ys [ex_item] = Inr (END, s)"
    by (simp add: run_simps)
  then obtain t where r5: "invoke ex_loads ex_templates ?ys [ex_item] = Inr (END, t)" ..
  have sy: "synthesize (world reply_sufficient) (at_hop 1)
      = Inr (at_hop 1\<lparr>section_drafts := [''1a'' \<mapsto> ''Draft.''], current_item_index := 1\<rparr>)"
    by (simp add: run_simps)
  note A = draft_keys_cover_all_items[of ex_loads ex_templates ?xs "[ex_item, ex_item2]" s
      "world reply_sufficient" "at_hop 1"
      "at_hop 1\<lparr>section_drafts := [''1a'' \<mapsto> ''Draft.''], current_item_index := 1\<rparr>"]
  note B = draft_keys_cover_all_items[of ex_loads ex_templates ?ys "[ex_item]" t
      "world reply_sufficient" "at_hop 1"
      "at_hop 1\<lparr>section_drafts := [''1a'' \<mapsto> ''Draft.''], current_item_index := 1\<rparr>"]
  have ids: "item_id ` set [ex_item, ex_item2] = {''1a'', ''1b''}" "item_id ` set [ex_item] = {''1a''}"
    by (simp_all add: ex_item_def ex_item2_def)
  have d0: "insert (item_id (consort_items (at_hop 1) ! current_item_index (at_hop 1)))
      (dom (section_drafts (at_hop 1))) = {''1a''}"
    by (simp add: at_hop_def create_initial_state_def ex_item_def)
  from A r sy ids d0 have 1: "dom (section_drafts s) = {''1a'', ''1b''}"
    and 2: "synthesized (visited ex_loads ex_templates ?xs PlanResearch
        (create_initial_state [ex_item, ex_item2])) = [0, 1]"
    and 3: "dom (section_drafts (at_hop 1\<lparr>section_drafts := [''1a'' \<mapsto> ''Draft.''],
        current_item_index := 1\<rparr>)) = {''1a''}"
    by (simp_all add: upt_rec)
  from B r5 ids have 4: "dom (section_drafts t) = {''1a''}" by simp
  from r r5 sy 1 2 3 4 show ?thesis by simp
qed

section \<open>The empty checklist\<close>

text \<open>
  The nodes behind the entry point do handle the empty checklist: the router after
  synthesis sends a cursor at the end of the list to \<^verbatim>\<open>generate_latex\<close>, and that
  node assembles the preamble and the empty compliance table without any external call.
\<close>

lemma empty_checklist_assembles:
  "generate_latex T x (create_initial_state [])
     = Inr ((create_initial_state [])
              \<lparr>latex_sections := Map.empty,
               final_latex := str_join ''\<newline>''
                 [PREAMBLE T, [], BEGIN_DOCUMENT T, [], [], CONSORT_TABLE_HEADER T,
                  CONSORT_TABLE_FOOTER T, [], END_DOCUMENT T]\<rparr>)"
  "route_after_synthesize (create_initial_state []) = GenerateLatex"
  by (simp_all add: generate_latex_def create_initial_state_def sections_to_latex_def
      sections_to_latex_parts_def route_after_synthesize_def)

text \<open>
  Claim C4. The claim is that a checklist with 0 items completes at once, with an empty
  body and the (empty) compliance table. The graph enters at \<^verbatim>\<open>plan_research\<close>
  unconditionally, and that node indexes \<^verbatim>\<open>consort_items[0]\<close>: on the empty checklist
  the first node visit raises \<open>IndexError\<close>, whatever the collaborators answer.
\<close>

theorem empty_checklist_fails:
  "invoke loads T (x # xs) [] = Inl IndexError"
  by (simp add: invoke_def create_initial_state_def plan_research_def)

section \<open>What planning resets\<close>

lemmas ev_simps = run_simps evidence_world_def ex_hit_def ex_chunk_def hit_to_chunk_def
  after_first_item_def second_item_planned_def

text \<open>
  Claim C9, as stated, fails: in a two-item run, the planning step of the second item
  also empties the accumulated evidence and the unfamiliar terms and blanks the last
  verdict, which the claim says are left unchanged.
\<close>

theorem planning_clears_more_than_hops_and_queries:
  "run ex_loads ex_templates (replicate 4 (evidence_world reply_sufficient_terms)) PlanResearch
       (create_initial_state [ex_item, ex_item2]) = Inr (PlanResearch, after_first_item)
   \<and> plan_research ex_loads (evidence_world reply_sufficient_terms) after_first_item
       = Inr second_item_planned
   \<and> retrieved_chunks after_first_item = [ex_chunk] \<and> retrieved_chunks second_item_planned = []
   \<and> unfamiliar_terms after_first_item = JArr [JStr ''ANCOVA'']
   \<and> unfamiliar_terms second_item_planned = JArr []
   \<and> evaluation_result after_first_item = JStr ''sufficient''
   \<and> evaluation_result second_item_planned = JStr []"
  by (simp add: ev_simps)

text \<open>
  Claim C9, amended. Planning a new item resets the hop count to 0, replaces the pending
  queries by the newly planned ones, and clears the accumulated evidence, the unfamiliar
  terms and the last verdict; the term-to-definition mapping is the only field of the
  iteration state it leaves unchanged, and no other field of the state is touched.
\<close>

theorem planning_resets_iteration_state:
  "(plan_research loads x s = Inr s' \<longrightarrow>
      s' = s\<lparr>research_queries := research_queries s', retrieved_chunks := [], hop_count := 0,
               evaluation_result := JStr [], unfamiliar_terms := JArr []\<rparr>
      \<and> web_search_results s' = web_search_results s
      \<and> (\<exists>raw. plan_chat x (consort_items s ! current_item_index s) = Inr raw
             \<and> research_queries s' = parse_queries loads raw))
   \<and> (current_item_index s < length (consort_items s)
        \<and> plan_chat x (consort_items s ! current_item_index s) = Inr reply \<longrightarrow>
        plan_research loads x s
          = Inr (s\<lparr>research_queries := parse_queries loads reply, retrieved_chunks := [],
                    hop_count := 0, evaluation_result := JStr [], unfamiliar_terms := JArr []\<rparr>))"
  by (auto simp: plan_research_def Let_def split: if_splits sum.splits)

theorem planning_resets_iteration_state_witness:
  "plan_research ex_loads (evidence_world reply_sufficient_terms) after_first_item
       = Inr second_item_planned
   \<and> second_item_planned
       = after_first_item\<lparr>research_queries := JArr [JStr ''primary outcome''],
           retrieved_chunks := [], hop_count := 0, evaluation_result := JStr [],
           unfamiliar_terms := JArr []\<rparr>
   \<and> web_search_results second_item_planned = web_search_results after_first_item
   \<and> parse_queries ex_loads reply_queries = JArr [JStr ''primary outcome'']"
proof -
  let ?w = "evidence_world reply_sufficient_terms"
  have i: "current_item_index after_first_item < length (consort_items after_first_item)
        \<and> plan_chat ?w (consort_items after_first_item ! current_item_index after_first_item)
            = Inr reply_queries"
    by (simp add: after_first_item_def create_initial_state_def evidence_world_def world_def)
  have q: "parse_queries ex_loads reply_queries = JArr [JStr ''primary outcome'']"
    by (simp add: parse_queries_def ex_loads_simps)
  note A = planning_resets_iteration_state[of ex_loads ?w after_first_item second_item_planned
      reply_queries]
  from A i q have p: "plan_research ex_loads ?w after_first_item
      = Inr (after_first_item\<lparr>research_queries := JArr [JStr ''primary outcome''],
           retrieved_chunks := [], hop_count := 0, evaluation_result := JStr [],
           unfamiliar_terms := JArr []\<rparr>)"
    by simp
  have e: "after_first_item\<lparr>research_queries := JArr [JStr ''primary outcome''],
           retrieved_chunks := [], hop_count := 0, evaluation_result := JStr [],
           unfamiliar_terms := JArr []\<rparr> = second_item_planned"
    by (simp add: after_first_item_def second_item_planned_def create_initial_state_def)
  from p e have p': "plan_research ex_loads ?w after_first_item = Inr second_item_planned"
    by simp
  from A p' have w: "web_search_results second_item_planned = web_search_results after_first_item"
    by blast
  from p' e w q show ?thesis by simp
qed

section \<open>The term-to-definition mapping\<close>

lemma hydrate_loop_dom:
  "hydrate_loop x defs ts = Inr m \<Longrightarrow> dom m = dom defs \<union> keys_of ts"
proof (induction ts arbitrary: defs)
  case Nil
  then show ?case by (simp add: keys_of_def)
next
  case (Cons t ts)
  from Cons.prems obtain rs d k where k: "py_key t = Some k"
    and l: "hydrate_loop x (defs(k \<mapsto> d)) ts = Inr m"
    by (auto split: sum.splits option.splits)
  have "dom m = dom (defs(k \<mapsto> d)) \<union> keys_of ts" by (rule Cons.IH[OF l])
  moreover have "dom (defs(k \<mapsto> d)) = insert k (dom defs)" by simp
  moreover have "keys_of (t # ts) = insert k (keys_of ts)"
    using k by (auto simp: keys_of_def)
  ultimately show ?case by blast
qed

lemma hydrate_loop_keeps:
  "hydrate_loop x defs ts = Inr m \<Longrightarrow> k \<notin> keys_of ts \<Longrightarrow> m k = defs k"
proof (induction ts arbitrary: defs)
  case Nil
  then show ?case by simp
next
  case (Cons t ts)
  from Cons.prems(1) obtain rs d k' where k': "py_key t = Some k'"
    and l: "hydrate_loop x (defs(k' \<mapsto> d)) ts = Inr m"
    by (auto split: sum.splits option.splits)
  from Cons.prems(2) k' have ne: "k \<noteq> k'" and nk: "k \<notin> keys_of ts"
    by (auto simp: keys_of_def)
  from Cons.IH[OF l nk] ne show ?case by simp
qed

lemma hydrate_terms_dom:
  "hydrate_terms x terms = Inr m \<Longrightarrow> dom m = keys_of (iterated terms)"
  by (auto simp: hydrate_terms_def iterated_def split: sum.splits dest: hydrate_loop_dom)

lemma keys_of_falsy: "\<not> py_truthy terms \<Longrightarrow> keys_of (iterated terms) = {}"
  by (cases terms) (auto simp: iterated_def keys_of_def)

lemma plan_research_wsr:
  "plan_research loads x s = Inr s' \<Longrightarrow> web_search_results s' = web_search_results s"
  by (auto simp: plan_research_def Let_def split: if_splits sum.splits)

lemma retrieve_wsr: "retrieve x s = Inr s' \<Longrightarrow> web_search_results s' = web_search_results s"
  by (auto simp: retrieve_def Let_def split: sum.splits)

lemma evaluate_wsr:
  "evaluate loads x s = Inr s' \<Longrightarrow> web_search_results s' = web_search_results s"
  by (auto simp: evaluate_def Let_def split: if_splits sum.splits json.splits option.splits)

lemma synthesize_wsr: "synthesize x s = Inr s' \<Longrightarrow> web_search_results s' = web_search_results s"
  by (auto simp: synthesize_def Let_def split: if_splits sum.splits)

lemma generate_latex_wsr:
  "generate_latex T x s = Inr s' \<Longrightarrow> web_search_results s' = web_search_results s"
  by (auto simp: generate_latex_def split: sum.splits)

lemma web_search_merge:
  assumes "web_search x s = Inr s'" and "py_truthy (unfamiliar_terms s)"
  shows "\<exists>new_defs. hydrate_terms x (unfamiliar_terms s) = Inr new_defs
           \<and> s' = s\<lparr>web_search_results := web_search_results s ++ new_defs,
                     evaluation_result := JStr ''sufficient''\<rparr>"
  using assms by (auto simp: web_search_def Let_def split: if_splits sum.splits)

lemma web_search_idle:
  assumes "web_search x s = Inr s'" and "\<not> py_truthy (unfamiliar_terms s)"
  shows "s' = s"
  using assms by (auto simp: web_search_def Let_def)

lemma web_search_dom:
  assumes w: "web_search x s = Inr s'"
  shows "dom (web_search_results s')
         = dom (web_search_results s) \<union> keys_of (iterated (unfamiliar_terms s))"
proof (cases "py_truthy (unfamiliar_terms s)")
  case True
  from web_search_merge[OF w True] obtain new_defs where
    h: "hydrate_terms x (unfamiliar_terms s) = Inr new_defs"
    and s': "web_search_results s' = web_search_results s ++ new_defs"
    by auto
  from hydrate_terms_dom[OF h] s' show ?thesis by auto
next
  case False
  from web_search_idle[OF w False] keys_of_falsy[OF False] show ?thesis by simp
qed

lemma web_search_keeps:
  assumes w: "web_search x s = Inr s'" and k: "k \<notin> keys_of (iterated (unfamiliar_terms s))"
  shows "web_search_results s' k = web_search_results s k"
proof (cases "py_truthy (unfamiliar_terms s)")
  case True
  from web_search_merge[OF w True] obtain new_defs where
    h: "hydrate_terms x (unfamiliar_terms s) = Inr new_defs"
    and s': "web_search_results s' = web_search_results s ++ new_defs"
    by auto
  from hydrate_terms_dom[OF h] k have "new_defs k = None" by auto
  with s' show ?thesis by (simp add: map_add_def)
next
  case False
  from web_search_idle[OF w False] show ?thesis by simp
qed

lemma step_wsr_keeps:
  assumes st: "step loads T x n s = Inr (n', s')"
    and k: "n \<noteq> WebSearch \<or> k \<notin> keys_of (iterated (unfamiliar_terms s))"
  shows "web_search_results s' k = web_search_results s k"
proof (cases n)
  case PlanResearch
  with st show ?thesis by (auto split: sum.splits dest!: plan_research_wsr)
next
  case Retrieve
  with st show ?thesis by (auto split: sum.splits dest!: retrieve_wsr)
next
  case Evaluate
  with st show ?thesis by (auto split: sum.splits dest!: evaluate_wsr)
next
  case WebSearch
  with st obtain w: "web_search x s = Inr s'" by (auto split: sum.splits)
  from WebSearch k have "k \<notin> keys_of (iterated (unfamiliar_terms s))" by simp
  from web_search_keeps[OF w this] show ?thesis .
next
  case Synthesize
  with st show ?thesis by (auto split: sum.splits dest!: synthesize_wsr)
next
  case GenerateLatex
  with st show ?thesis by (auto split: sum.splits dest!: generate_latex_wsr)
next
  case END
  with st show ?thesis by simp
qed

lemma step_wsr_mono:
  assumes st: "step loads T x n s = Inr (n', s')"
  shows "dom (web_search_results s) \<subseteq> dom (web_search_results s')"
proof (cases "n = WebSearch")
  case True
  with st obtain w: "web_search x s = Inr s'" by (auto split: sum.splits)
  from web_search_dom[OF w] show ?thesis by blast
next
  case False
  then have "web_search_results s' k = web_search_results s k" for k
    using step_wsr_keeps[OF st] by blast
  then have "web_search_results s' = web_search_results s" by (rule ext)
  then show ?thesis by simp
qed

lemma run_wsr_mono:
  "run loads T xs n s = Inr (n', s') \<Longrightarrow> dom (web_search_results s) \<subseteq> dom (web_search_results s')"
proof (induction xs arbitrary: n s)
  case Nil
  then show ?case by simp
next
  case (Cons x xs)
  show ?case
  proof (cases "n = END")
    case True
    with Cons.prems show ?thesis by simp
  next
    case False
    with Cons.prems obtain n1 s1 where st: "step loads T x n s = Inr (n1, s1)"
      and r: "run loads T xs n1 s1 = Inr (n', s')"
      by (auto split: sum.splits)
    from step_wsr_mono[OF st] Cons.IH[OF r] show ?thesis by blast
  qed
qed

lemma synthesize_input:
  assumes "synthesize x s = Inr s'"
  shows "\<exists>draft. synth_chat x (consort_items s ! current_item_index s) (take 20 (retrieved_chunks s))
            (web_search_results s) = Inr draft
          \<and> section_drafts s' (item_id (consort_items s ! current_item_index s)) = Some draft"
  using assms by (auto simp: synthesize_def Let_def split: if_splits sum.splits)

lemmas hy_simps = ev_simps need_web_state_def hydrated_state_def citing_world_def web_search_def
  hydrate_terms_def search_term_def py_str_def combined_def redefining_world_def
  rehydrated_state_def

text \<open>
  Claim C10, as stated, fails in its last part: \<^verbatim>\<open>web_search\<close> merges with the new
  definitions winning, so a term that is hydrated again loses the definition it had.
  In a two-item run the definition of ANCOVA hydrated for the first item is replaced
  while the second item is processed, and is not part of the second item's synthesis
  input.
\<close>

theorem rehydration_replaces_definition:
  "run ex_loads ex_templates (replicate 4 (world reply_need_web)) PlanResearch
       (create_initial_state [ex_item, ex_item2]) = Inr (Evaluate, hydrated_state)
   \<and> web_search_results hydrated_state (JStr ''ANCOVA'') = Some ''analysis of covariance''
   \<and> run ex_loads ex_templates
        (replicate 4 (world reply_need_web) @ replicate 2 (world reply_sufficient)
         @ replicate 4 (redefining_world reply_need_web) @ [world reply_sufficient])
        PlanResearch (create_initial_state [ex_item, ex_item2]) = Inr (Synthesize, rehydrated_state)
   \<and> current_item_index rehydrated_state = 1
   \<and> web_search_results rehydrated_state (JStr ''ANCOVA'') = Some ''a general linear model''"
  by (simp add: hy_simps)

text \<open>
  Claim C10, amended. The key set of \<open>web_search_results\<close> only grows during a run and
  the mapping is never cleared: planning a new item carries it forward unchanged;
  \<^verbatim>\<open>web_search\<close>, when it succeeds, merges the definitions of the current unfamiliar
  terms into it, giving every such term an entry, replacing the definition of a term
  that had one and leaving every other entry as it was; no other node changes an entry.
  The drafting engine is called with the whole mapping, so a term hydrated for one item
  is still defined, with its latest definition, in the synthesis input of every later
  item.
\<close>

theorem term_definitions_persist:
  "(plan_research loads x p = Inr p' \<longrightarrow> web_search_results p' = web_search_results p)
   \<and> (web_search x w = Inr w' \<longrightarrow>
        dom (web_search_results w')
          = dom (web_search_results w) \<union> keys_of (iterated (unfamiliar_terms w))
        \<and> (k \<notin> keys_of (iterated (unfamiliar_terms w)) \<longrightarrow>
             web_search_results w' k = web_search_results w k)
        \<and> (py_truthy (unfamiliar_terms w) \<longrightarrow>
             (\<exists>new_defs. hydrate_terms x (unfamiliar_terms w) = Inr new_defs
                \<and> web_search_results w' = web_search_results w ++ new_defs)))
   \<and> (step loads T x n r = Inr (n', r')
        \<and> (n \<noteq> WebSearch \<or> k \<notin> keys_of (iterated (unfamiliar_terms r))) \<longrightarrow>
        web_search_results r' k = web_search_results r k)
   \<and> (run loads T xs m q = Inr (m', q') \<longrightarrow>
        dom (web_search_results q) \<subseteq> dom (web_search_results q'))
   \<and> (synthesize x y = Inr y' \<longrightarrow>
        (\<exists>draft. synth_chat x (consort_items y ! current_item_index y) (take 20 (retrieved_chunks y))
            (web_search_results y) = Inr draft
          \<and> section_drafts y' (item_id (consort_items y ! current_item_index y)) = Some draft))"
proof (intro conjI impI)
  assume "plan_research loads x p = Inr p'"
  then show "web_search_results p' = web_search_results p" by (rule plan_research_wsr)
next
  assume "web_search x w = Inr w'"
  then show "dom (web_search_results w')
          = dom (web_search_results w) \<union> keys_of (iterated (unfamiliar_terms w))"
    by (rule web_search_dom)
next
  assume "web_search x w = Inr w'" and "k \<notin> keys_of (iterated (unfamiliar_terms w))"
  then show "web_search_results w' k = web_search_results w k" by (rule web_search_keeps)
next
  assume "web_search x w = Inr w'" and "py_truthy (unfamiliar_terms w)"
  from web_search_merge[OF this]
  show "\<exists>new_defs. hydrate_terms x (unfamiliar_terms w) = Inr new_defs
                \<and> web_search_results w' = web_search_results w ++ new_defs"
    by auto
next
  assume "step loads T x n r = Inr (n', r')
        \<and> (n \<noteq> WebSearch \<or> k \<notin> keys_of (iterated (unfamiliar_terms r)))"
  then show "web_search_results r' k = web_search_results r k"
    using step_wsr_keeps by blast
next
  assume "run loads T xs m q = Inr (m', q')"
  then show "dom (web_search_results q) \<subseteq> dom (web_search_results q')" by (rule run_wsr_mono)
next
  assume "synthesize x y = Inr y'"
  then show "\<exists>draft. synth_chat x (consort_items y ! current_item_index y) (take 20 (retrieved_chunks y))
            (web_search_results y) = Inr draft
          \<and> section_drafts y' (item_id (consort_items y ! current_item_index y)) = Some draft"
    by (rule synthesize_input)
qed

theorem term_definitions_persist_witness:
  "plan_research ex_loads (citing_world reply_sufficient) (hydrated_state\<lparr>current_item_index := 1\<rparr>)
     = Inr (second_item_planned\<lparr>web_search_results := [JStr ''ANCOVA'' \<mapsto> ''analysis of covariance''],
                                section_drafts := Map.empty\<rparr>)
   \<and> hydrate_terms (citing_world reply_sufficient) (JArr [JStr ''ANCOVA''])
       = Inr [JStr ''ANCOVA'' \<mapsto> ''analysis of covariance'']
   \<and> web_search (citing_world reply_sufficient) need_web_state = Inr hydrated_state
   \<and> web_search_results need_web_state = Map.empty
   \<and> web_search_results hydrated_state = [JStr ''ANCOVA'' \<mapsto> ''analysis of covariance'']
   \<and> keys_of (iterated (unfamiliar_terms need_web_state)) = {JStr ''ANCOVA''}
   \<and> dom (web_search_results hydrated_state) = {JStr ''ANCOVA''}
   \<and> web_search_results hydrated_state (JStr ''RCT'') = None
   \<and> step ex_loads ex_templates (citing_world reply_sufficient) Evaluate hydrated_state
       = Inr (Synthesize, hydrated_state\<lparr>unfamiliar_terms := JArr []\<rparr>)
   \<and> run ex_loads ex_templates (replicate 5 (citing_world reply_sufficient)) Evaluate hydrated_state
       = Inr (Synthesize,
              rehydrated_state\<lparr>web_search_results := [JStr ''ANCOVA'' \<mapsto> ''analysis of covariance''],
                               section_drafts := [''1a'' \<mapsto> ''ANCOVA is analysis of covariance'']\<rparr>)
   \<and> synthesize (citing_world reply_sufficient)
        (rehydrated_state\<lparr>web_search_results := [JStr ''ANCOVA'' \<mapsto> ''analysis of covariance''],
                          section_drafts := [''1a'' \<mapsto> ''ANCOVA is analysis of covariance'']\<rparr>)
       = Inr (rehydrated_state\<lparr>web_search_results := [JStr ''ANCOVA'' \<mapsto> ''analysis of covariance''],
                section_drafts := [''1a'' \<mapsto> ''ANCOVA is analysis of covariance'',
                                   ''1b'' \<mapsto> ''ANCOVA is analysis of covariance''],
                current_item_index := 2\<rparr>)"
proof -
  let ?w = "citing_world reply_sufficient"
  let ?p = "hydrated_state\<lparr>current_item_index := 1\<rparr>"
  let ?p' = "second_item_planned\<lparr>web_search_results := [JStr ''ANCOVA'' \<mapsto> ''analysis of covariance''],
                                section_drafts := Map.empty\<rparr>"
  let ?s = "rehydrated_state\<lparr>web_search_results := [JStr ''ANCOVA'' \<mapsto> ''analysis of covariance''],
                               section_drafts := [''1a'' \<mapsto> ''ANCOVA is analysis of covariance'']\<rparr>"
  let ?s' = "rehydrated_state\<lparr>web_search_results := [JStr ''ANCOVA'' \<mapsto> ''analysis of covariance''],
                section_drafts := [''1a'' \<mapsto> ''ANCOVA is analysis of covariance'',
                                   ''1b'' \<mapsto> ''ANCOVA is analysis of covariance''],
                current_item_index := 2\<rparr>"
  have p: "plan_research ex_loads ?w ?p = Inr ?p'"
    by (simp add: hy_simps)
  have h: "web_search ?w need_web_state = Inr hydrated_state"
    by (simp add: hy_simps)
  have t: "py_truthy (unfamiliar_terms need_web_state)"
    by (simp add: hy_simps)
  have st: "step ex_loads ex_templates ?w Evaluate hydrated_state
            = Inr (Synthesize, hydrated_state\<lparr>unfamiliar_terms := JArr []\<rparr>)"
    by (simp add: hy_simps)
  have r: "run ex_loads ex_templates (replicate 5 ?w) Evaluate hydrated_state = Inr (Synthesize, ?s)"
    by (simp add: hy_simps)
  have sy: "synthesize ?w ?s = Inr ?s'"
    by (simp add: hy_simps)
  have e: "web_search_results need_web_state = Map.empty"
    by (simp add: hy_simps)
  have hv: "web_search_results hydrated_state = [JStr ''ANCOVA'' \<mapsto> ''analysis of covariance'']"
    by (simp add: hy_simps)
  have ut: "unfamiliar_terms need_web_state = JArr [JStr ''ANCOVA'']"
    by (simp add: hy_simps)
  have ks: "keys_of (iterated (unfamiliar_terms need_web_state)) = {JStr ''ANCOVA''}"
    by (auto simp: ut keys_of_def iterated_def)
  note A = term_definitions_persist[where loads = ex_loads and x = ?w and p = ?p and p' = ?p'
      and w = need_web_state and w' = hydrated_state and k = "JStr ''RCT''" and T = ex_templates
      and n = Evaluate and r = hydrated_state and n' = Synthesize and r' = "hydrated_state\<lparr>unfamiliar_terms := JArr []\<rparr>"
      and xs = "replicate 5 ?w" and m = Evaluate and q = hydrated_state and m' = Synthesize
      and q' = ?s and y = ?s and y' = ?s']
  from A h ks e have d: "dom (web_search_results hydrated_state) = {JStr ''ANCOVA''}"
    by simp
  from A h ks e have k: "web_search_results hydrated_state (JStr ''RCT'') = None"
    by simp
  from A h t ut e obtain new_defs where
    nd: "hydrate_terms ?w (JArr [JStr ''ANCOVA'']) = Inr new_defs"
    and m: "web_search_results hydrated_state = Map.empty ++ new_defs"
    by auto
  from m hv have "new_defs = [JStr ''ANCOVA'' \<mapsto> ''analysis of covariance'']" by simp
  with nd have ht: "hydrate_terms ?w (JArr [JStr ''ANCOVA''])
       = Inr [JStr ''ANCOVA'' \<mapsto> ''analysis of covariance'']"
    by simp
  from p ht h e hv ks d k st r sy show ?thesis by blast
qed

section \<open>Hydration and re-evaluation\<close>





section \<open>Failures of the external collaborators\<close>














section \<open>De-duplication and re-ranking\<close>

lemma dedup_results_Nil: "dedup_results acc [] = acc"
  by (cases acc) simp

lemma dedup_results_append:
  "dedup_results acc (xs @ ys) = dedup_results (dedup_results acc xs) ys"
proof (induction xs arbitrary: acc)
  case Nil
  then show ?case by (simp add: dedup_results_Nil)
next
  case (Cons a xs)
  obtain seen cs where acc: "acc = (seen, cs)" by (cases acc)
  show ?case using Cons.IH by (simp add: acc)
qed

lemma dedup_results_inv:
  assumes "dedup_results (seen, acc) rs = (seen', acc')"
    and "seen = chunk_text ` set acc" and "distinct (map chunk_text acc)"
  shows "seen' = chunk_text ` set acc' \<and> distinct (map chunk_text acc')
         \<and> set acc' \<subseteq> set acc \<union> set rs
         \<and> chunk_text ` set acc' = chunk_text ` (set acc \<union> set rs)"
  using assms
proof (induction rs arbitrary: seen acc)
  case Nil
  then show ?case by auto
next
  case (Cons r rs)
  show ?case
  proof (cases "chunk_text r \<in> seen")
    case True
    with Cons.prems have d: "dedup_results (seen, acc) rs = (seen', acc')" by simp
    from Cons.IH[OF d Cons.prems(2) Cons.prems(3)] True Cons.prems(2) show ?thesis by auto
  next
    case False
    with Cons.prems have d: "dedup_results (insert (chunk_text r) seen, acc @ [r]) rs = (seen', acc')"
      by simp
    have a: "insert (chunk_text r) seen = chunk_text ` set (acc @ [r])"
      using Cons.prems(2) by auto
    have b: "distinct (map chunk_text (acc @ [r]))"
      using Cons.prems(2,3) False by auto
    from Cons.IH[OF d a b] show ?thesis by auto
  qed
qed

lemma query_loop_dedup:
  "query_loop x k acc queries = Inr acc' \<Longrightarrow> acc' = dedup_results acc (all_results x queries k)"
proof (induction queries arbitrary: acc)
  case Nil
  then show ?case by (simp add: all_results_def dedup_results_Nil)
next
  case (Cons q queries)
  from Cons.prems obtain rs where s: "search x q k = Inr rs"
    and l: "query_loop x k (dedup_results acc rs) queries = Inr acc'"
    by (auto split: sum.splits)
  from Cons.IH[OF l] s show ?case
    by (simp add: all_results_def dedup_results_append)
qed

lemma multi_query_search_merge_and_sort:
  assumes "multi_query_search x queries k = Inr result"
  shows "result = merge_and_sort (all_results x (iterated queries) k)"
proof -
  from assms obtain qs seen cs where i: "py_iter queries = Inr qs"
    and l: "query_loop x k ({}, []) qs = Inr (seen, cs)"
    and r: "result = rerank cs"
    by (auto simp: multi_query_search_def split: sum.splits)
  from query_loop_dedup[OF l] have "dedup_results ({}, []) (all_results x qs k) = (seen, cs)"
    by simp
  with r i show ?thesis by (simp add: merge_and_sort_def iterated_def)
qed

lemma merge_and_sort_distinct: "distinct (map chunk_text (merge_and_sort rs))"
proof -
  obtain seen cs where d: "dedup_results ({}, []) rs = (seen, cs)" by (cases "dedup_results ({}, []) rs")
  from dedup_results_inv[OF d] have "distinct (map chunk_text cs)" by simp
  then have "distinct (map chunk_text (sort_key (\<lambda>c. - chunk_score c) cs))"
    by (metis distinct_map distinct_sort set_sort)
  with d show ?thesis by (simp add: merge_and_sort_def rerank_def)
qed

lemma rerank_descending: "sorted_wrt (\<lambda>a b. chunk_score b \<le> chunk_score a) (rerank cs)"
proof -
  have "sorted (map (\<lambda>c. - chunk_score c) (rerank cs))"
    by (simp add: rerank_def)
  then show ?thesis by (simp add: sorted_wrt_map)
qed

lemma rerank_stable:
  "filter (\<lambda>c. chunk_score c = v) (rerank cs) = filter (\<lambda>c. chunk_score c = v) cs"
proof -
  have "filter (\<lambda>c. - chunk_score c = - v) (sort_key (\<lambda>c. - chunk_score c) cs)
      = filter (\<lambda>c. - chunk_score c = - v) cs"
    by (rule sort_key_stable)
  then show ?thesis by (simp add: rerank_def)
qed

lemma sort_key_unique:
  fixes f :: "'a \<Rightarrow> 'b::linorder"
  assumes "distinct xs" "distinct ys" "set xs = set ys" "inj_on f (set xs)"
  shows "sort_key f xs = sort_key f ys"
proof -
  have dx: "distinct (map f (sort_key f xs))"
    using assms(1,4) by (simp add: distinct_map)
  have dy: "distinct (map f (sort_key f ys))"
    using assms(2,3,4) by (simp add: distinct_map)
  have "map f (sort_key f xs) = map f (sort_key f ys)"
    by (rule sorted_distinct_set_unique) (use dx dy assms(3) in simp_all)
  moreover have "inj_on f (set (sort_key f xs) \<union> set (sort_key f ys))"
    using assms(3,4) by simp
  ultimately show ?thesis
    using inj_on_map_eq_map[of f "sort_key f xs" "sort_key f ys"] by blast
qed

lemma merge_and_sort_order_independent:
  assumes s: "set xs = set ys" and it: "inj_on chunk_text (set xs)" and isc: "inj_on chunk_score (set xs)"
  shows "merge_and_sort xs = merge_and_sort ys"
proof -
  obtain s1 c1 where d1: "dedup_results ({}, []) xs = (s1, c1)" by (cases "dedup_results ({}, []) xs")
  obtain s2 c2 where d2: "dedup_results ({}, []) ys = (s2, c2)" by (cases "dedup_results ({}, []) ys")
  from dedup_results_inv[OF d1] have i1: "distinct (map chunk_text c1)" "set c1 \<subseteq> set xs"
    "chunk_text ` set c1 = chunk_text ` set xs" by simp_all
  from dedup_results_inv[OF d2] have i2: "distinct (map chunk_text c2)" "set c2 \<subseteq> set ys"
    "chunk_text ` set c2 = chunk_text ` set ys" by simp_all
  have e1: "set c1 = set xs"
  proof
    show "set c1 \<subseteq> set xs" by (rule i1(2))
    show "set xs \<subseteq> set c1"
    proof
      fix a assume a: "a \<in> set xs"
      then have "chunk_text a \<in> chunk_text ` set c1" using i1(3) by blast
      then obtain b where b: "b \<in> set c1" "chunk_text b = chunk_text a" by auto
      with i1(2) a it have "b = a" by (auto dest: inj_onD)
      with b show "a \<in> set c1" by simp
    qed
  qed
  have e2: "set c2 = set ys"
  proof
    show "set c2 \<subseteq> set ys" by (rule i2(2))
    show "set ys \<subseteq> set c2"
    proof
      fix a assume a: "a \<in> set ys"
      then have "chunk_text a \<in> chunk_text ` set c2" using i2(3) by blast
      then obtain b where b: "b \<in> set c2" "chunk_text b = chunk_text a" by auto
      with i2(2) a it s have "b = a" by (auto dest: inj_onD)
      with b show "a \<in> set c2" by simp
    qed
  qed
  have "distinct c1" "distinct c2" using i1(1) i2(1) by (simp_all add: distinct_map)
  moreover have "set c1 = set c2" using e1 e2 s by simp
  moreover have "inj_on (\<lambda>c. - chunk_score c) (set c1)"
    using isc e1 by (auto simp: inj_on_def)
  ultimately have "sort_key (\<lambda>c. - chunk_score c) c1 = sort_key (\<lambda>c. - chunk_score c) c2"
    by (rule sort_key_unique)
  with d1 d2 show ?thesis by (simp add: merge_and_sort_def rerank_def)
qed


lemmas tie_simps = tie_world_def world_def multi_query_search_def search_def rerank_def
  hit_to_chunk_def hit_a_def hit_b_def chunk_a_def chunk_b_def all_results_def iterated_def

text \<open>
  Claim C6, as stated, fails in its last part: the sort is stable, so two fragments with
  the same score stay in first-seen order, and the final list then depends on the order
  in which the same fragments arrived. Swapping two queries whose hits tie on the score
  swaps the two fragments in the result.
\<close>

theorem tie_order_follows_input_order:
  "multi_query_search tie_world (JArr [JStr ''q1'', JStr ''q2'']) 5 = Inr [chunk_a, chunk_b]
   \<and> multi_query_search tie_world (JArr [JStr ''q2'', JStr ''q1'']) 5 = Inr [chunk_b, chunk_a]
   \<and> set (all_results tie_world [JStr ''q1'', JStr ''q2''] 5) = set (all_results tie_world [JStr ''q2'', JStr ''q1''] 5)
   \<and> [chunk_a, chunk_b] \<noteq> [chunk_b, chunk_a]"
  by (simp add: tie_simps insert_commute)

text \<open>
  Claim C6, amended. A successful \<^verbatim>\<open>multi_query_search\<close> returns the merge-and-sort
  of the fragments its searches returned: no two fragments of the result share a text,
  the scores are in descending order, and fragments with equal scores keep their
  first-seen order. The result is the same for every input order of the same fragment
  set provided no two distinct fragments of the set share a text or a score.
\<close>

theorem merge_sort_dedup_sorted_stable:
  "(multi_query_search x queries k = Inr result \<longrightarrow>
      result = merge_and_sort (all_results x (iterated queries) k)
      \<and> distinct (map chunk_text result)
      \<and> sorted_wrt (\<lambda>a b. chunk_score b \<le> chunk_score a) result
      \<and> filter (\<lambda>c. chunk_score c = v) result
          = filter (\<lambda>c. chunk_score c = v) (snd (dedup_results ({}, []) (all_results x (iterated queries) k))))
   \<and> (set xs = set ys \<and> inj_on chunk_text (set xs) \<and> inj_on chunk_score (set xs) \<longrightarrow>
        merge_and_sort xs = merge_and_sort ys)"
proof (intro conjI impI)
  assume m: "multi_query_search x queries k = Inr result"
  then show r: "result = merge_and_sort (all_results x (iterated queries) k)"
    by (rule multi_query_search_merge_and_sort)
  from r show "distinct (map chunk_text result)" by (simp add: merge_and_sort_distinct)
  from r show "sorted_wrt (\<lambda>a b. chunk_score b \<le> chunk_score a) result"
    by (simp add: merge_and_sort_def rerank_descending)
  from r show "filter (\<lambda>c. chunk_score c = v) result
          = filter (\<lambda>c. chunk_score c = v) (snd (dedup_results ({}, []) (all_results x (iterated queries) k)))"
    by (simp add: merge_and_sort_def rerank_stable)
next
  assume "set xs = set ys \<and> inj_on chunk_text (set xs) \<and> inj_on chunk_score (set xs)"
  then show "merge_and_sort xs = merge_and_sort ys"
    using merge_and_sort_order_independent by blast
qed

theorem merge_sort_dedup_sorted_stable_witness:
  "multi_query_search tie_world (JArr [JStr ''q1'', JStr ''q2'']) 5 = Inr [chunk_a, chunk_b]
   \<and> merge_and_sort (all_results tie_world [JStr ''q1'', JStr ''q2''] 5) = [chunk_a, chunk_b]
   \<and> distinct (map chunk_text [chunk_a, chunk_b])
   \<and> sorted_wrt (\<lambda>a b. chunk_score b \<le> chunk_score a) [chunk_a, chunk_b]
   \<and> filter (\<lambda>c. chunk_score c = 0.5) [chunk_a, chunk_b] = [chunk_a, chunk_b]
   \<and> merge_and_sort [chunk_a, ex_chunk] = [ex_chunk, chunk_a]
   \<and> merge_and_sort [ex_chunk, chunk_a] = [ex_chunk, chunk_a]"
proof -
  have m: "multi_query_search tie_world (JArr [JStr ''q1'', JStr ''q2'']) 5 = Inr [chunk_a, chunk_b]"
    by (simp add: tie_simps)
  have h: "set [chunk_a, ex_chunk] = set [ex_chunk, chunk_a]
      \<and> inj_on chunk_text (set [chunk_a, ex_chunk]) \<and> inj_on chunk_score (set [chunk_a, ex_chunk])"
    by (auto simp: chunk_a_def ex_chunk_def)
  have e: "merge_and_sort [ex_chunk, chunk_a] = [ex_chunk, chunk_a]"
    by (simp add: merge_and_sort_def rerank_def chunk_a_def ex_chunk_def)
  note A = merge_sort_dedup_sorted_stable[of tie_world "JArr [JStr ''q1'', JStr ''q2'']" 5 "[chunk_a, chunk_b]" "0.5"
      "[chunk_a, ex_chunk]" "[ex_chunk, chunk_a]"]
  have i: "iterated (JArr [JStr ''q1'', JStr ''q2'']) = [JStr ''q1'', JStr ''q2'']"
    by (simp add: iterated_def)
  from A m have 1: "[chunk_a, chunk_b]
      = merge_and_sort (all_results tie_world (iterated (JArr [JStr ''q1'', JStr ''q2''])) 5)"
    and 2: "distinct (map chunk_text [chunk_a, chunk_b])"
    and 3: "sorted_wrt (\<lambda>a b. chunk_score b \<le> chunk_score a) [chunk_a, chunk_b]"
    by blast+
  from A h have 5: "merge_and_sort [chunk_a, ex_chunk] = merge_and_sort [ex_chunk, chunk_a]"
    by blast
  have 6: "filter (\<lambda>c. chunk_score c = 0.5) [chunk_a, chunk_b] = [chunk_a, chunk_b]"
    by (simp add: chunk_a_def chunk_b_def)
  from m 1 2 3 5 6 e i show ?thesis by simp
qed

section \<open>The assembled document\<close>

lemma body_loop_blocks:
  "body_loop cmds secs items cs ct parts = parts @ blocks cmds secs cs ct items"
  by (induction items arbitrary: cs ct parts) (simp_all add: Let_def item_block_def)

text \<open>
  Whatever the table of section commands: when two consecutive items carry the same
  non-empty topic label in different sections, the second one gets a topic marker too.
\<close>

lemma topic_marker_after_section_change:
  assumes "item_section b \<noteq> item_section a" and "item_topic b = item_topic a"
    and "item_topic a \<noteq> []"
  shows "item_block cmds latex_secs (item_section a) (item_topic a) b
         = [[], section_marker cmds (item_section b),
            subsection_marker (item_topic b), label_marker (item_id b)]
           @ (if map_get latex_secs (item_id b) [] \<noteq> []
              then [[], item_header (item_id b) (item_topic b), map_get latex_secs (item_id b) []]
              else [placeholder (item_id b)])"
  using assms by (simp add: item_block_def)

text \<open>
  Claim C8, as stated, fails for the topic marker: the assembler forgets the current
  topic whenever the section changes, so an item that opens a new section gets a topic
  marker even though its topic label is the one of the item before it.
\<close>

theorem topic_marker_repeats_after_section_change:
  "item_topic ex_results = item_topic ex_methods
   \<and> body_loop Map.empty Map.empty [ex_methods, ex_results] [] [] []
       = [[], section_marker Map.empty ''Methods'',
          subsection_marker ''Participants'', label_marker ''5'', placeholder ''5'',
          [], section_marker Map.empty ''Results'',
          subsection_marker ''Participants'', label_marker ''13'', placeholder ''13'']
   \<and> body_loop Map.empty Map.empty [ex_methods, ex_results] [] [] []
       \<noteq> blocks_as_claimed Map.empty Map.empty [] [] [ex_methods, ex_results]"
  by (simp add: ex_methods_def ex_results_def Let_def map_get_def item_block_as_claimed_def)

text \<open>
  Claim C8, amended. The document is the preamble, then one block per item in input
  order, then the compliance table with one row per item in input order, whatever
  fragments exist. The block of an item starts with a section marker exactly when its
  section label differs from that of the previous item (from the empty label for the
  first item); next comes a topic marker with its label exactly when its topic label
  differs from the previous item's topic label or, for an item that starts a new
  section, from the empty label; it ends with the item's fragment under a header, or
  with the placeholder when the item has no fragment or an empty one.
\<close>

theorem assembler_structure:
  "sections_to_latex T items latex_secs =
     str_join ''\<newline>''
       ([PREAMBLE T, [], BEGIN_DOCUMENT T, []]
        @ blocks (SECTION_COMMANDS T) latex_secs [] [] items
        @ [[], CONSORT_TABLE_HEADER T] @ map (table_row T) items @ [CONSORT_TABLE_FOOTER T]
        @ [[], END_DOCUMENT T])"
  by (simp add: sections_to_latex_def sections_to_latex_parts_def body_loop_blocks)

theorem assembler_structure_witness:
  "sections_to_latex ex_templates [ex_item, ex_item2] [''1a'' \<mapsto> ''Body.''] =
     str_join ''\<newline>''
       [''%preamble'', [], ''%begin'', [],
        [], section_marker Map.empty ''Title and abstract'',
        subsection_marker ''Title'', label_marker ''1a'',
        [], item_header ''1a'' ''Title'', ''Body.'',
        subsection_marker ''Abstract'', label_marker ''1b'',
        placeholder ''1b'',
        [], ''%table'', table_row ex_templates ex_item, table_row ex_templates ex_item2, ''%endtable'',
        [], ''%end'']"
proof -
  have b: "blocks (SECTION_COMMANDS ex_templates) [''1a'' \<mapsto> ''Body.''] [] [] [ex_item, ex_item2]
      = [[], section_marker Map.empty ''Title and abstract'',
         subsection_marker ''Title'', label_marker ''1a'',
         [], item_header ''1a'' ''Title'', ''Body.'',
         subsection_marker ''Abstract'', label_marker ''1b'',
         placeholder ''1b'']"
    by (simp add: item_block_def map_get_def ex_item_def ex_item2_def ex_templates_def)
  have t: "PREAMBLE ex_templates = ''%preamble''" "BEGIN_DOCUMENT ex_templates = ''%begin''"
    "END_DOCUMENT ex_templates = ''%end''" "CONSORT_TABLE_HEADER ex_templates = ''%table''"
    "CONSORT_TABLE_FOOTER ex_templates = ''%endtable''"
    by (simp_all add: ex_templates_def)
  show ?thesis
    unfolding assembler_structure b t by simp
qed

section \<open>Malformed engine output\<close>

text \<open>
  Output that is not JSON at all is recovered as the source documents it: the planner's
  reply becomes the single query, the evaluator's reply becomes the rationale of a
  \<open>sufficient\<close> verdict, and neither node fails.
\<close>

lemma unparsable_output_recovered:
  assumes "loads raw = None"
  shows "parse_queries loads raw = JArr [JStr raw]"
    and "parse_evaluation loads raw
          = JObj [(''verdict'', JStr ''sufficient''), (''details'', JStr raw),
                  (''unfamiliar_terms'', JArr []), (''follow_up_queries'', JArr [])]"
    and "current_item_index s < length (consort_items s) \<Longrightarrow>
         plan_chat x (consort_items s ! current_item_index s) = Inr raw \<Longrightarrow>
         plan_research loads x s
           = Inr (s\<lparr>research_queries := JArr [JStr raw], retrieved_chunks := [], hop_count := 0,
                     evaluation_result := JStr [], unfamiliar_terms := JArr []\<rparr>)"
    and "current_item_index s < length (consort_items s) \<Longrightarrow>
         eval_chat x (consort_items s ! current_item_index s)
           (evidence_summary (retrieved_chunks s)) = Inr raw \<Longrightarrow>
         evaluate loads x s
           = Inr (s\<lparr>evaluation_result := JStr ''sufficient'', unfamiliar_terms := JArr []\<rparr>)"
  using assms
  by (simp_all add: parse_queries_def parse_evaluation_def plan_research_def evaluate_def
      dict_get_def Let_def)

text \<open>
  Output that parses is taken as it is. An evaluator reply that is JSON but not an object
  makes \<^verbatim>\<open>evaluate\<close> raise, and the planner's empty array is an empty query list.
\<close>

lemma non_object_reply_raises:
  assumes "current_item_index s < length (consort_items s)"
    and "eval_chat x (consort_items s ! current_item_index s)
           (evidence_summary (retrieved_chunks s)) = Inr raw"
    and "loads raw = Some j" and "\<And>kv. j \<noteq> JObj kv"
  shows "evaluate loads x s = Inl AttributeError"
  using assms by (cases j) (auto simp: evaluate_def parse_evaluation_def Let_def)

lemma empty_array_plan_gives_no_queries:
  "loads raw = Some (JArr []) \<Longrightarrow> parse_queries loads raw = JArr []"
  by (simp add: parse_queries_def)

text \<open>
  Claim C5. The claim is that malformed output of the planning or judgment engine
  never surfaces as a run failure and that retrieval never receives zero queries. Output
  that parses but has the wrong shape is not recovered: an evaluator reply that is a
  JSON array has no \<^verbatim>\<open>.get\<close>, so \<^verbatim>\<open>evaluate\<close> raises and the run ends; and a
  planner reply that is the empty JSON array is taken as the query list, so the
  retrieval node runs with zero queries.
\<close>

theorem parsable_malformed_reply_not_recovered:
  "evaluate ex_loads (world reply_array) (at_hop 1) = Inl AttributeError
   \<and> invoke ex_loads ex_templates (replicate 3 (world reply_array)) [ex_item] = Inl AttributeError
   \<and> plan_research ex_loads empty_plan_world (create_initial_state [ex_item])
       = Inr (create_initial_state [ex_item])
   \<and> research_queries (create_initial_state [ex_item]) = JArr []
   \<and> retrieve empty_plan_world (create_initial_state [ex_item])
       = Inr ((create_initial_state [ex_item])\<lparr>hop_count := 1\<rparr>)"
  by (simp add: hy_simps empty_plan_world_def)

end
